theory Spec2Isabelle
  imports Main "HOL-Library.Finite_Map" "HOL-Library.Sublist" "HOL-Library.AList"
    "HOL-Library.List_Lexorder" "HOL-Library.Char_ord" "HOL-Library.Multiset"
begin

section \<open>Values, errors and the Python operations the program uses\<close>

text \<open>
  The program reads two JSON documents (the device list and the team list) and works on
  the Python values \<open>response.json()\<close> returns: \<open>None\<close>, strings, lists and dicts.
  A dict is a finite map, so that equality of two dicts is Python's (the order of the keys
  does not count). JSON numbers and booleans are not part of the model: none of the fields
  read here is documented as one, and Python's equality across \<open>bool\<close>, \<open>int\<close> and
  \<open>float\<close> is not structural. A string is a list of characters; \<open>lower\<close> changes the
  ASCII capitals only, which decides the comparison with \<open>chrome\<close>, \<open>firefox\<close> and
  \<open>safari\<close> as \<open>str.lower\<close> does.
\<close>

datatype json = JNull | JStr string | JArr "json list" | JObj "(string, json) fmap"

text \<open>Every exception the modelled code can raise; \<open>DBError\<close> is a failed flush.\<close>

datatype error = AttributeError | TypeError | KeyError | DBError
  | NoResultFound | MultipleResultsFound

text \<open>\<open>bool(x)\<close>, as \<open>if x\<close> and \<open>not x\<close> use it.\<close>

fun truthy :: "json \<Rightarrow> bool" where
  "truthy JNull = False"
| "truthy (JStr s) = (s \<noteq> [])"
| "truthy (JArr xs) = (xs \<noteq> [])"
| "truthy (JObj m) = (m \<noteq> fmempty)"

text \<open>\<open>hash(x)\<close> succeeds: lists and dicts are unhashable.\<close>

fun hashable :: "json \<Rightarrow> bool" where
  "hashable JNull = True"
| "hashable (JStr s) = True"
| "hashable (JArr xs) = False"
| "hashable (JObj m) = False"

definition lookup_or :: "(string, json) fmap \<Rightarrow> string \<Rightarrow> json \<Rightarrow> json" where
  "lookup_or m k d = (case fmlookup m k of None \<Rightarrow> d | Some v \<Rightarrow> v)"

text \<open>\<open>x.get(k, d)\<close>: only a dict has the method.\<close>

fun dict_get_default :: "json \<Rightarrow> string \<Rightarrow> json \<Rightarrow> error + json" where
  "dict_get_default (JObj m) k d = Inr (lookup_or m k d)"
| "dict_get_default JNull k d = Inl AttributeError"
| "dict_get_default (JStr s) k d = Inl AttributeError"
| "dict_get_default (JArr xs) k d = Inl AttributeError"

text \<open>\<open>x.get(k)\<close>: the default is \<open>None\<close>.\<close>

definition dict_get :: "json \<Rightarrow> string \<Rightarrow> error + json" where
  "dict_get x k = dict_get_default x k JNull"

text \<open>\<open>m.get(k)\<close> on a value known to be a dict.\<close>

definition dget :: "(string, json) fmap \<Rightarrow> string \<Rightarrow> json" where
  "dget m k = lookup_or m k JNull"

text \<open>\<open>x[k]\<close> with a string key \<open>k\<close>.\<close>

fun subscript_key :: "json \<Rightarrow> string \<Rightarrow> error + json" where
  "subscript_key (JObj m) k = (case fmlookup m k of None \<Rightarrow> Inl KeyError | Some v \<Rightarrow> Inr v)"
| "subscript_key JNull k = Inl TypeError"
| "subscript_key (JStr s) k = Inl TypeError"
| "subscript_key (JArr xs) k = Inl TypeError"

text \<open>
  The elements a \<open>for\<close> loop visits. A dict yields its keys; Python visits them in
  insertion order, which a finite map does not record, so they are listed in sorted order.
  Every loop of this program that meets a key raises at the first one, whichever it is.
\<close>

fun py_iter :: "json \<Rightarrow> error + json list" where
  "py_iter (JArr xs) = Inr xs"
| "py_iter (JStr s) = Inr (map (\<lambda>c. JStr [c]) s)"
| "py_iter (JObj m) = Inr (map JStr (sorted_list_of_fset (fmdom m)))"
| "py_iter JNull = Inl TypeError"

text \<open>\<open>needle in x\<close> for a string \<open>needle\<close>: substring, list membership, key membership.\<close>

fun py_in :: "string \<Rightarrow> json \<Rightarrow> error + bool" where
  "py_in needle (JStr s) = Inr (sublist needle s)"
| "py_in needle (JArr xs) = Inr (JStr needle \<in> set xs)"
| "py_in needle (JObj m) = Inr (needle |\<in>| fmdom m)"
| "py_in needle JNull = Inl TypeError"

text \<open>\<open>a or b\<close>.\<close>

definition py_or :: "json \<Rightarrow> json \<Rightarrow> json" where
  "py_or a b = (if truthy a then a else b)"

text \<open>\<open>sep.join(xs)\<close>: every item has to be a string.\<close>

fun py_join :: "string \<Rightarrow> json list \<Rightarrow> error + string" where
  "py_join sep [] = Inr []"
| "py_join sep [JStr s] = Inr s"
| "py_join sep (JStr s # x # xs) =
     (case py_join sep (x # xs) of Inl e \<Rightarrow> Inl e | Inr r \<Rightarrow> Inr (s @ sep @ r))"
| "py_join sep (JNull # xs) = Inl TypeError"
| "py_join sep (JArr ys # xs) = Inl TypeError"
| "py_join sep (JObj m # xs) = Inl TypeError"

definition lower_char :: "char \<Rightarrow> char" where
  "lower_char c =
     (let n = (of_char c :: nat) in if 65 \<le> n \<and> n \<le> 90 then char_of (n + 32) else c)"

definition lower :: "string \<Rightarrow> string" where
  "lower s = map lower_char s"

section \<open>Identity resolver\<close>

definition get_effective_device_type :: "json \<Rightarrow> error + json" where
  "get_effective_device_type device =
     (case dict_get device ''device_subtype'' of Inl e \<Rightarrow> Inl e
      | Inr device_subtype \<Rightarrow>
         (case dict_get_default device ''device_type'' (JStr []) of Inl e \<Rightarrow> Inl e
          | Inr device_type \<Rightarrow>
              if truthy device_subtype then Inr device_subtype
              else (case device_type of
                      JStr s \<Rightarrow>
                        if lower s \<in> set [''chrome'', ''firefox'', ''safari'']
                        then Inr (JStr ''browser'') else Inr device_type
                    | JNull \<Rightarrow> Inl AttributeError
                    | JArr xs \<Rightarrow> Inl AttributeError
                    | JObj m \<Rightarrow> Inl AttributeError)))"

definition get_unique_device_id :: "json \<Rightarrow> error + json" where
  "get_unique_device_id device =
     (case get_effective_device_type device of Inl e \<Rightarrow> Inl e
      | Inr t \<Rightarrow>
          if t = JStr ''browser'' then dict_get device ''device_address''
          else dict_get device ''device_id'')"

section \<open>Team annotator\<close>

text \<open>The inner loop of \<open>get_device_teams\<close>, over the teams of one entry.\<close>

fun collect_team_names :: "json list \<Rightarrow> json list \<Rightarrow> error + json list" where
  "collect_team_names [] device_teams = Inr device_teams"
| "collect_team_names (team # rest) device_teams =
     (case subscript_key team ''team_name'' of Inl e \<Rightarrow> Inl e
      | Inr n \<Rightarrow>
          collect_team_names rest
            (if n \<notin> set device_teams then device_teams @ [n] else device_teams))"

text \<open>The outer loop, over the entries of the team snapshot.\<close>

fun scan_team_devices :: "json \<Rightarrow> json list \<Rightarrow> json list \<Rightarrow> error + json list" where
  "scan_team_devices device_address [] device_teams = Inr device_teams"
| "scan_team_devices device_address (device # rest) device_teams =
     (case dict_get device ''device_address'' of Inl e \<Rightarrow> Inl e
      | Inr a \<Rightarrow>
          if device_address = a then
            (case dict_get_default device ''teams'' (JArr []) of Inl e \<Rightarrow> Inl e
             | Inr ts \<Rightarrow>
                 (case py_iter ts of Inl e \<Rightarrow> Inl e
                  | Inr teams \<Rightarrow>
                      (case collect_team_names teams device_teams of Inl e \<Rightarrow> Inl e
                       | Inr device_teams' \<Rightarrow>
                           scan_team_devices device_address rest device_teams')))
          else scan_team_devices device_address rest device_teams)"

definition get_device_teams :: "json \<Rightarrow> json \<Rightarrow> error + json list" where
  "get_device_teams device_address teams_list =
     (if \<not> truthy teams_list then Inr []
      else (case dict_get teams_list ''devices'' of Inl e \<Rightarrow> Inl e
            | Inr devices \<Rightarrow>
                if \<not> truthy devices then Inr []
                else (case py_iter devices of Inl e \<Rightarrow> Inl e
                      | Inr ds \<Rightarrow> scan_team_devices device_address ds [])))"


section \<open>Normalised inventory record\<close>

text \<open>
  The dict \<open>device_details_for_db\<close> returns, one field for each key. \<open>str_of\<close> stands
  for Python's \<open>str\<close>, which the f-string of the location applies to the host city and
  the host country; it is a parameter of the model.
\<close>

record device_details =
  d_device_type :: json
  d_model :: json
  d_device_skus :: json
  d_udid :: json
  d_host_name :: json
  d_os_version :: json
  d_location :: json
  d_device_notes :: json
  d_teams :: json
  d_is_avbox :: bool

fun device_details_for_db :: "(json \<Rightarrow> string) \<Rightarrow> json \<Rightarrow> json \<Rightarrow> error + device_details" where
  "device_details_for_db str_of (JObj device) teams_list =
     (case get_device_teams (dget device ''device_address'') teams_list of Inl e \<Rightarrow> Inl e
      | Inr device_teams \<Rightarrow>
         (let skus = dget device ''device_skus'' in
          case get_effective_device_type (JObj device) of Inl e \<Rightarrow> Inl e
          | Inr device_type \<Rightarrow>
             (case (case skus of JArr xs \<Rightarrow>
                       (case py_join '', '' xs of Inl e \<Rightarrow> Inl e | Inr j \<Rightarrow> Inr (JStr j))
                     | JNull \<Rightarrow> Inr skus | JStr x \<Rightarrow> Inr skus | JObj x \<Rightarrow> Inr skus)
              of Inl e \<Rightarrow> Inl e
              | Inr device_skus \<Rightarrow>
                 (case get_unique_device_id (JObj device) of Inl e \<Rightarrow> Inl e
                  | Inr udid \<Rightarrow>
                     (case (if device_teams \<noteq> [] then py_join '', '' device_teams else Inr [])
                      of Inl e \<Rightarrow> Inl e
                      | Inr teams \<Rightarrow>
                          Inr \<lparr>d_device_type = device_type,
                               d_model = dget device ''model'',
                               d_device_skus = device_skus,
                               d_udid = udid,
                               d_host_name = dget device ''hostname'',
                               d_os_version = dget device ''os_version'',
                               d_location = JStr (str_of (lookup_or device ''host_city'' (JStr []))
                                 @ '', '' @ str_of (lookup_or device ''host_country'' (JStr []))),
                               d_device_notes = dget device ''device_note'',
                               d_teams = JStr teams,
                               d_is_avbox = truthy (dget device ''avbox_info'')\<rparr>)))))"
| "device_details_for_db str_of JNull teams_list = Inl AttributeError"
| "device_details_for_db str_of (JStr s) teams_list = Inl AttributeError"
| "device_details_for_db str_of (JArr xs) teams_list = Inl AttributeError"

section \<open>Box grouper\<close>

text \<open>
  \<open>device_list[index]\<close> with \<open>IndexError\<close> caught. The program calls it with index
  \<open>0\<close> only. A dict raises \<open>KeyError\<close> (its keys are strings), which is not caught.
\<close>

fun safe_get_device :: "json \<Rightarrow> nat \<Rightarrow> error + json" where
  "safe_get_device (JArr xs) index = Inr (if index < length xs then xs ! index else JNull)"
| "safe_get_device (JStr s) index = Inr (if index < length s then JStr [s ! index] else JNull)"
| "safe_get_device (JObj m) index = Inl KeyError"
| "safe_get_device JNull index = Inl TypeError"

text \<open>
  A bundle is a dict with the key \<open>dut\<close> and any of the keys \<open>device_type\<close>,
  \<open>device_notes\<close>, \<open>camera_device\<close> and \<open>control\<close>; \<open>None\<close> is a key that is not
  set. \<open>AVBoxs\<close> is a dict from addresses to bundles, kept in insertion order.
\<close>

record box_bundle =
  b_dut :: json
  b_device_type :: "json option"
  b_device_notes :: "json option"
  b_camera_device :: "json option"
  b_control :: "json option"

definition new_bundle :: "json \<Rightarrow> box_bundle" where
  "new_bundle dut_address =
     \<lparr>b_dut = dut_address, b_device_type = None, b_device_notes = None,
      b_camera_device = None, b_control = None\<rparr>"

fun add_avbox_mapping_entry ::
  "json \<Rightarrow> (json \<times> box_bundle) list \<Rightarrow> error + (json \<times> box_bundle) list" where
  "add_avbox_mapping_entry (JObj device) AVBoxs =
     (let avbox_info = dget device ''avbox_info'' in
      if \<not> truthy avbox_info then Inr AVBoxs
      else (case avbox_info of
          JNull \<Rightarrow> Inl AttributeError
        | JStr x \<Rightarrow> Inl AttributeError
        | JArr x \<Rightarrow> Inl AttributeError
        | JObj info \<Rightarrow>
           (let usage = dget info ''usage''; avbox_devices = dget info ''devices'' in
            if \<not> truthy usage \<or> \<not> truthy avbox_devices then Inr AVBoxs
            else (case py_in ''device_under_test'' usage of Inl e \<Rightarrow> Inl e
              | Inr is_dut \<Rightarrow>
                 (case (if is_dut then Inr (dget device ''device_address'')
                        else safe_get_device avbox_devices 0)
                  of Inl e \<Rightarrow> Inl e
                  | Inr dut_address \<Rightarrow>
                      if \<not> truthy dut_address then Inr AVBoxs
                      else if \<not> hashable dut_address then Inl TypeError
                      else
                        (let AVBoxs1 =
                           (if dut_address \<in> fst ` set AVBoxs then AVBoxs
                            else AVBoxs @ [(dut_address, new_bundle dut_address)])
                         in if is_dut then
                              Inr (AList.map_entry dut_address
                                (\<lambda>b. b\<lparr>b_device_type :=
                                          Some (py_or (dget device ''device_subtype'')
                                                  (dget device ''device_type'')),
                                        b_device_notes := Some (dget device ''device_note'')\<rparr>)
                                AVBoxs1)
                            else (case py_in ''camera_device'' usage of Inl e \<Rightarrow> Inl e
                              | Inr is_camera \<Rightarrow>
                                  if is_camera then
                                    Inr (AList.map_entry dut_address
                                      (\<lambda>b. b\<lparr>b_camera_device :=
                                                Some (dget device ''device_address'')\<rparr>)
                                      AVBoxs1)
                                  else (case py_in ''control'' usage of Inl e \<Rightarrow> Inl e
                                    | Inr is_control \<Rightarrow>
                                        if is_control then
                                          Inr (AList.map_entry dut_address
                                            (\<lambda>b. b\<lparr>b_control :=
                                                      Some (dget device ''device_address'')\<rparr>)
                                            AVBoxs1)
                                        else Inr AVBoxs1))))))))"
| "add_avbox_mapping_entry JNull AVBoxs = Inl AttributeError"
| "add_avbox_mapping_entry (JStr s) AVBoxs = Inl AttributeError"
| "add_avbox_mapping_entry (JArr xs) AVBoxs = Inl AttributeError"

text \<open>The first loop of \<open>main\<close>: every device with auxiliary-usage info is grouped.\<close>

fun group_avboxes :: "json list \<Rightarrow> (json \<times> box_bundle) list \<Rightarrow> error + (json \<times> box_bundle) list" where
  "group_avboxes [] AVBoxs = Inr AVBoxs"
| "group_avboxes (device # rest) AVBoxs =
     (case dict_get device ''avbox_info'' of Inl e \<Rightarrow> Inl e
      | Inr avbox_info \<Rightarrow>
          if truthy avbox_info then
            (case add_avbox_mapping_entry device AVBoxs of Inl e \<Rightarrow> Inl e
             | Inr AVBoxs' \<Rightarrow> group_avboxes rest AVBoxs')
          else group_avboxes rest AVBoxs)"

section \<open>Snapshot diff engine\<close>

text \<open>
  A Python set is a list without repetitions. \<open>api_unique_ids\<close> is the set comprehension
  over the snapshot: computing an identifier may raise, and an identifier that is a list or
  a dict cannot be hashed.
\<close>

fun api_unique_ids :: "json list \<Rightarrow> json list \<Rightarrow> error + json list" where
  "api_unique_ids [] ids = Inr ids"
| "api_unique_ids (device # rest) ids =
     (case get_unique_device_id device of Inl e \<Rightarrow> Inl e
      | Inr uid \<Rightarrow>
          if \<not> hashable uid then Inl TypeError
          else api_unique_ids rest (if uid \<in> set ids then ids else ids @ [uid]))"

text \<open>\<open>a - b\<close> on sets.\<close>

definition set_minus :: "json list \<Rightarrow> json list \<Rightarrow> json list" where
  "set_minus a b = filter (\<lambda>x. x \<notin> set b) a"

text \<open>Lines 205 and 206 of the source: the pair \<open>(added_ids, removed_ids)\<close>.\<close>

definition snapshot_diff :: "json list \<Rightarrow> json list \<Rightarrow> json list \<times> json list" where
  "snapshot_diff api_ids db_unique_ids =
     (set_minus api_ids db_unique_ids, set_minus db_unique_ids db_unique_ids)"

section \<open>The store and the session\<close>

text \<open>
  The three tables. A column of type \<open>String\<close> holds a string or \<open>NULL\<close>. The rows of
  a table are listed in the order of their primary key \<open>id\<close>, which is the order of
  insertion; the key itself and the time stamp of a ledger entry are not modelled.
\<close>

record DeviceInventory =
  di_device_type :: "string option"
  di_model :: "string option"
  di_device_skus :: "string option"
  di_udid :: "string option"
  di_host_name :: "string option"
  di_os_version :: "string option"
  di_location :: "string option"
  di_device_notes :: "string option"
  di_teams :: "string option"
  di_is_avbox :: "bool option"

record AVBoxMapping =
  am_device_type :: "string option"
  am_device_notes :: "string option"
  am_dut :: "string option"
  am_camera_device :: "string option"
  am_control :: "string option"

record DeviceLedger =
  dl_udid :: "string option"
  dl_status :: "string option"
  dl_details :: "string option"

record database =
  device_inventory :: "DeviceInventory list"
  avbox_mapping :: "AVBoxMapping list"
  device_ledger :: "DeviceLedger list"

text \<open>
  A session holds one transaction. \<open>persisted\<close> is the committed state of the store,
  \<open>pending\<close> is the state the transaction sees (its own changes included), and
  \<open>unflushable\<close> says that an object of the session holds a value that no \<open>String\<close>
  column can take (a list or a dict), so that the next flush raises. The session flushes
  before every query and at commit.
\<close>

record session =
  persisted :: database
  pending :: database
  unflushable :: bool

definition Session :: "database \<Rightarrow> session" where
  "Session db = \<lparr>persisted = db, pending = db, unflushable = False\<rparr>"

definition rollback :: "session \<Rightarrow> session" where
  "rollback s = s\<lparr>pending := persisted s, unflushable := False\<rparr>"

definition close :: "session \<Rightarrow> session" where
  "close s = s\<lparr>pending := persisted s, unflushable := False\<rparr>"

definition autoflush :: "session \<Rightarrow> error option" where
  "autoflush s = (if unflushable s then Some DBError else None)"

definition commit :: "session \<Rightarrow> error option \<times> session" where
  "commit s =
     (case autoflush s of Some e \<Rightarrow> (Some e, s)
      | None \<Rightarrow> (None, s\<lparr>persisted := pending s\<rparr>))"

text \<open>The value a \<open>String\<close> column takes for a Python value, if it can take it.\<close>

fun bind_string :: "json \<Rightarrow> string option option" where
  "bind_string JNull = Some None"
| "bind_string (JStr s) = Some (Some s)"
| "bind_string (JArr xs) = None"
| "bind_string (JObj m) = None"

text \<open>The Python value of a column read back.\<close>

fun column_value :: "string option \<Rightarrow> json" where
  "column_value None = JNull"
| "column_value (Some s) = JStr s"

definition inventory_row :: "device_details \<Rightarrow> DeviceInventory option" where
  "inventory_row d =
     (case (bind_string (d_device_type d), bind_string (d_model d),
            bind_string (d_device_skus d), bind_string (d_udid d),
            bind_string (d_host_name d), bind_string (d_os_version d),
            bind_string (d_location d), bind_string (d_device_notes d),
            bind_string (d_teams d)) of
        (Some ty, Some mo, Some sk, Some ud, Some ho, Some os, Some lo, Some no, Some te) \<Rightarrow>
          Some \<lparr>di_device_type = ty, di_model = mo, di_device_skus = sk, di_udid = ud,
                di_host_name = ho, di_os_version = os, di_location = lo,
                di_device_notes = no, di_teams = te, di_is_avbox = Some (d_is_avbox d)\<rparr>
      | _ \<Rightarrow> None)"

text \<open>The first element that satisfies \<open>P\<close> is replaced by its image under \<open>f\<close>.\<close>

fun update_first :: "('a \<Rightarrow> bool) \<Rightarrow> ('a \<Rightarrow> 'a) \<Rightarrow> 'a list \<Rightarrow> 'a list" where
  "update_first P f [] = []"
| "update_first P f (x # xs) = (if P x then f x # xs else x # update_first P f xs)"

text \<open>
  Lines 227 to 231: \<open>filter_by(udid=unique_id).first()\<close>, then every attribute of the
  row found is set, or a new row is added. A query on \<open>None\<close> is \<open>IS NULL\<close>.
\<close>

definition upsert_inventory :: "device_details \<Rightarrow> session \<Rightarrow> error option \<times> session" where
  "upsert_inventory d s =
     (case autoflush s of Some e \<Rightarrow> (Some e, s)
      | None \<Rightarrow>
         (case bind_string (d_udid d) of None \<Rightarrow> (Some DBError, s)
          | Some u \<Rightarrow>
             (case inventory_row d of None \<Rightarrow> (None, s\<lparr>unflushable := True\<rparr>)
              | Some r \<Rightarrow>
                  if \<exists>x \<in> set (device_inventory (pending s)). di_udid x = u
                  then (None, s\<lparr>pending := (pending s)\<lparr>device_inventory :=
                          update_first (\<lambda>x. di_udid x = u) (\<lambda>x. r)
                            (device_inventory (pending s))\<rparr>\<rparr>)
                  else (None, s\<lparr>pending := (pending s)\<lparr>device_inventory :=
                          device_inventory (pending s) @ [r]\<rparr>\<rparr>))))"

text \<open>\<open>session.add(DeviceLedger(udid=..., status=..., details=...))\<close>.\<close>

definition add_ledger :: "json \<Rightarrow> string \<Rightarrow> string \<Rightarrow> session \<Rightarrow> session" where
  "add_ledger unique_id status details s =
     (case bind_string unique_id of None \<Rightarrow> s\<lparr>unflushable := True\<rparr>
      | Some u \<Rightarrow>
          s\<lparr>pending := (pending s)\<lparr>device_ledger := device_ledger (pending s) @
              [\<lparr>dl_udid = u, dl_status = Some status, dl_details = Some details\<rparr>]\<rparr>\<rparr>)"

text \<open>Two statements in sequence: the second runs unless the first raised.\<close>

definition and_then ::
  "(session \<Rightarrow> error option \<times> session) \<Rightarrow> (session \<Rightarrow> error option \<times> session) \<Rightarrow>
   session \<Rightarrow> error option \<times> session" where
  "and_then f g s = (case f s of (Some e, s1) \<Rightarrow> (Some e, s1) | (None, s1) \<Rightarrow> g s1)"

text \<open>A \<open>for\<close> loop whose body works on the session: it stops at the first exception.\<close>

fun for_each ::
  "('a \<Rightarrow> session \<Rightarrow> error option \<times> session) \<Rightarrow> 'a list \<Rightarrow> session \<Rightarrow> error option \<times> session"
where
  "for_each body [] s = (None, s)"
| "for_each body (x # xs) s =
     (case body x s of (Some e, s') \<Rightarrow> (Some e, s') | (None, s') \<Rightarrow> for_each body xs s')"

section \<open>Reconciler\<close>

text \<open>
  The body of the removal loop, lines 212 to 218. \<open>dumps\<close> stands for \<open>json.dumps\<close>
  and is a parameter of the model. \<open>one()\<close> raises unless exactly one row matches.
\<close>

definition remove_device :: "(json \<Rightarrow> string) \<Rightarrow> json \<Rightarrow> session \<Rightarrow> error option \<times> session" where
  "remove_device dumps unique_id s =
     (case autoflush s of Some e \<Rightarrow> (Some e, s)
      | None \<Rightarrow>
         (case bind_string unique_id of None \<Rightarrow> (Some DBError, s)
          | Some u \<Rightarrow>
             (case filter (\<lambda>x. di_udid x = u) (device_inventory (pending s)) of
                [] \<Rightarrow> (Some NoResultFound, s)
              | device_to_remove # others \<Rightarrow>
                  if others \<noteq> [] then (Some MultipleResultsFound, s)
                  else
                    (let details = fmap_of_list
                           [(''model'', column_value (di_model device_to_remove)),
                            (''type'', column_value (di_device_type device_to_remove))];
                         details' =
                           (case List.find (\<lambda>x. am_dut x = u) (avbox_mapping (pending s)) of
                              None \<Rightarrow> details
                            | Some avbox_map \<Rightarrow>
                                fmupd ''companions''
                                  (JObj (fmap_of_list
                                    [(''camera'', column_value (am_camera_device avbox_map)),
                                     (''control'', column_value (am_control avbox_map))]))
                                  details);
                         s1 = add_ledger unique_id ''removed'' (dumps (JObj details')) s
                     in (None, s1\<lparr>pending := (pending s1)\<lparr>device_inventory :=
                           filter (\<lambda>x. di_udid x \<noteq> u) (device_inventory (pending s1))\<rparr>\<rparr>)))))"

text \<open>The test of line 223: is the device written to the inventory table?\<close>

definition in_inventory :: "json \<Rightarrow> error + bool" where
  "in_inventory device =
     (case dict_get device ''avbox_info'' of Inl e \<Rightarrow> Inl e
      | Inr avbox_info \<Rightarrow>
          if \<not> truthy avbox_info then Inr True
          else (case dict_get avbox_info ''usage'' of Inl e \<Rightarrow> Inl e
                | Inr usage \<Rightarrow> Inr (usage = JStr ''device_under_test'')))"

text \<open>Lines 234 to 237: the detail payload of an \<open>added\<close> ledger entry.\<close>

definition added_details :: "json \<Rightarrow> (json \<times> box_bundle) list \<Rightarrow> error + json" where
  "added_details device AVBoxs_data =
     (case dict_get device ''model'' of Inl e \<Rightarrow> Inl e
      | Inr model \<Rightarrow>
         (case get_effective_device_type device of Inl e \<Rightarrow> Inl e
          | Inr ty \<Rightarrow>
             (case subscript_key device ''device_address'' of Inl e \<Rightarrow> Inl e
              | Inr address \<Rightarrow>
                  if \<not> hashable address then Inl TypeError
                  else (case map_of AVBoxs_data address of
                      None \<Rightarrow> Inr (JObj (fmap_of_list [(''model'', model), (''type'', ty)]))
                    | Some avbox_map \<Rightarrow>
                        Inr (JObj (fmupd ''companions''
                          (JObj (fmap_of_list
                            [(''camera'', (case b_camera_device avbox_map of
                                             None \<Rightarrow> JNull | Some v \<Rightarrow> v)),
                             (''control'', (case b_control avbox_map of
                                              None \<Rightarrow> JNull | Some v \<Rightarrow> v))]))
                          (fmap_of_list [(''model'', model), (''type'', ty)])))))))"

text \<open>The body of the inventory loop, lines 222 to 238.\<close>

definition sync_device ::
  "(json \<Rightarrow> string) \<Rightarrow> (json \<Rightarrow> string) \<Rightarrow> json \<Rightarrow> (json \<times> box_bundle) list \<Rightarrow> json list \<Rightarrow>
   json \<Rightarrow> session \<Rightarrow> error option \<times> session" where
  "sync_device str_of dumps devices_team_list AVBoxs_data added_ids device s =
     (case in_inventory device of Inl e \<Rightarrow> (Some e, s)
      | Inr wanted \<Rightarrow>
          if \<not> wanted then (None, s)
          else (case device_details_for_db str_of device devices_team_list of
              Inl e \<Rightarrow> (Some e, s)
            | Inr device_inventory_data \<Rightarrow>
               (case upsert_inventory device_inventory_data s of
                  (Some e, s1) \<Rightarrow> (Some e, s1)
                | (None, s1) \<Rightarrow>
                    if d_udid device_inventory_data \<in> set added_ids then
                      (case added_details device AVBoxs_data of Inl e \<Rightarrow> (Some e, s1)
                       | Inr details \<Rightarrow>
                           (None, add_ledger (d_udid device_inventory_data) ''added''
                                    (dumps details) s1))
                    else (None, s1))))"

text \<open>
  What \<open>setattr\<close> over the items of a bundle does to a row of the box-mapping table: a
  key of the bundle overwrites its column, a column without a key keeps its value.
\<close>

fun bind_key :: "json option \<Rightarrow> (string option \<Rightarrow> string option) option" where
  "bind_key None = Some (\<lambda>old. old)"
| "bind_key (Some v) = (case bind_string v of None \<Rightarrow> None | Some c \<Rightarrow> Some (\<lambda>old. c))"

definition avbox_setattrs :: "box_bundle \<Rightarrow> (AVBoxMapping \<Rightarrow> AVBoxMapping) option" where
  "avbox_setattrs b =
     (case (bind_string (b_dut b), bind_key (b_device_type b), bind_key (b_device_notes b),
            bind_key (b_camera_device b), bind_key (b_control b)) of
        (Some du, Some ty, Some no, Some ca, Some co) \<Rightarrow>
          Some (\<lambda>row. \<lparr>am_device_type = ty (am_device_type row),
                        am_device_notes = no (am_device_notes row),
                        am_dut = du,
                        am_camera_device = ca (am_camera_device row),
                        am_control = co (am_control row)\<rparr>)
      | _ \<Rightarrow> None)"

definition empty_mapping :: AVBoxMapping where
  "empty_mapping = \<lparr>am_device_type = None, am_device_notes = None, am_dut = None,
     am_camera_device = None, am_control = None\<rparr>"

text \<open>The body of the box-mapping loop, lines 241 to 245.\<close>

definition upsert_avbox :: "json \<times> box_bundle \<Rightarrow> session \<Rightarrow> error option \<times> session" where
  "upsert_avbox item s =
     (case autoflush s of Some e \<Rightarrow> (Some e, s)
      | None \<Rightarrow>
         (case bind_string (fst item) of None \<Rightarrow> (Some DBError, s)
          | Some u \<Rightarrow>
             (case avbox_setattrs (snd item) of None \<Rightarrow> (None, s\<lparr>unflushable := True\<rparr>)
              | Some setattrs \<Rightarrow>
                  if \<exists>x \<in> set (avbox_mapping (pending s)). am_dut x = u
                  then (None, s\<lparr>pending := (pending s)\<lparr>avbox_mapping :=
                          update_first (\<lambda>x. am_dut x = u) setattrs
                            (avbox_mapping (pending s))\<rparr>\<rparr>)
                  else (None, s\<lparr>pending := (pending s)\<lparr>avbox_mapping :=
                          avbox_mapping (pending s) @ [setattrs empty_mapping]\<rparr>\<rparr>))))"

text \<open>
  The \<open>try\<close> block of \<open>main\<close> up to the commit, on the two documents fetched (\<open>None\<close>
  for a fetch that failed). The result is the exception raised, if any, and the session
  as it is then. The iteration order of the set \<open>removed_ids\<close> is that of the list.
\<close>

definition main_try ::
  "(json \<Rightarrow> string) \<Rightarrow> (json \<Rightarrow> string) \<Rightarrow> json \<Rightarrow> json \<Rightarrow> session \<Rightarrow> error option \<times> session" where
  "main_try str_of dumps devices_list_raw devices_team_list s =
     (if \<not> truthy devices_list_raw then (None, s)
      else (case dict_get devices_list_raw ''devices'' of Inl e \<Rightarrow> (Some e, s)
        | Inr devices_json \<Rightarrow>
            if \<not> truthy devices_json then (None, s)
            else (case py_iter devices_json of Inl e \<Rightarrow> (Some e, s)
              | Inr devices \<Rightarrow>
                 (case group_avboxes devices [] of Inl e \<Rightarrow> (Some e, s)
                  | Inr AVBoxs_data \<Rightarrow>
                     (case api_unique_ids devices [] of Inl e \<Rightarrow> (Some e, s)
                      | Inr api_ids \<Rightarrow>
                         (case autoflush s of Some e \<Rightarrow> (Some e, s)
                          | None \<Rightarrow>
                             (let db_unique_ids = remdups (map (\<lambda>x. column_value (di_udid x))
                                    (device_inventory (pending s)));
                                  added_ids = fst (snapshot_diff api_ids db_unique_ids);
                                  removed_ids = snd (snapshot_diff api_ids db_unique_ids)
                              in and_then (for_each (remove_device dumps) removed_ids)
                                   (and_then
                                      (for_each (sync_device str_of dumps devices_team_list
                                                   AVBoxs_data added_ids) devices)
                                      (and_then (for_each upsert_avbox AVBoxs_data) commit))
                                   s)))))))"

text \<open>
  One run of \<open>main\<close> on the store \<open>db\<close>: the \<open>except\<close> clause rolls the session back,
  the \<open>finally\<close> clause closes it, and the result is the persisted state afterwards.
  What follows the commit in the source only reads and prints.
\<close>

definition main :: "(json \<Rightarrow> string) \<Rightarrow> (json \<Rightarrow> string) \<Rightarrow> database \<Rightarrow> json \<Rightarrow> json \<Rightarrow> database" where
  "main str_of dumps db devices_list_raw devices_team_list =
     (case main_try str_of dumps devices_list_raw devices_team_list (Session db) of
        (Some e, s) \<Rightarrow> persisted (close (rollback s))
      | (None, s) \<Rightarrow> persisted (close s))"

section \<open>Notions of the specification\<close>

text \<open>
  The words of the specification about the team snapshot, to state what the team
  annotator computes. A team is well formed when it is a dict with the key
  \<open>team_name\<close>. The teams an entry lists are the elements of its \<open>teams\<close> (none when
  the key is absent). An entry can be read for an address when it is a dict and, if its
  address is the one asked for, its teams can be iterated and are all well formed.
\<close>

fun wf_team :: "json \<Rightarrow> bool" where
  "wf_team (JObj t) = (fmlookup t ''team_name'' \<noteq> None)"
| "wf_team JNull = False"
| "wf_team (JStr s) = False"
| "wf_team (JArr xs) = False"

fun entry_teams :: "json \<Rightarrow> json list" where
  "entry_teams (JObj e) =
     (case py_iter (lookup_or e ''teams'' (JArr [])) of Inr ts \<Rightarrow> ts | Inl x \<Rightarrow> [])"
| "entry_teams JNull = []"
| "entry_teams (JStr s) = []"
| "entry_teams (JArr xs) = []"

fun entry_address :: "json \<Rightarrow> json" where
  "entry_address (JObj e) = dget e ''device_address''"
| "entry_address JNull = JNull"
| "entry_address (JStr s) = JNull"
| "entry_address (JArr xs) = JNull"

fun entry_ok :: "json \<Rightarrow> json \<Rightarrow> bool" where
  "entry_ok a (JObj e) =
     (dget e ''device_address'' = a \<longrightarrow>
        (case py_iter (lookup_or e ''teams'' (JArr [])) of
           Inr ts \<Rightarrow> list_all wf_team ts | Inl x \<Rightarrow> False))"
| "entry_ok a JNull = False"
| "entry_ok a (JStr s) = False"
| "entry_ok a (JArr xs) = False"

fun team_name :: "json \<Rightarrow> json" where
  "team_name (JObj t) = dget t ''team_name''"
| "team_name JNull = JNull"
| "team_name (JStr s) = JNull"
| "team_name (JArr xs) = JNull"

text \<open>A list without its repetitions, in the order of first appearance.\<close>

fun dedup :: "'a list \<Rightarrow> 'a list" where
  "dedup [] = []"
| "dedup (x # xs) = x # filter (\<lambda>y. y \<noteq> x) (dedup xs)"

section \<open>Upserts into a table\<close>













section \<open>Example inputs\<close>

text \<open>A browser endpoint: the category \<open>Chrome\<close> and no sub-category.\<close>

definition example_browser :: "(string, json) fmap" where
  "example_browser = fmap_of_list [(''device_type'', JStr ''Chrome''),
     (''device_address'', JStr ''host-1@chrome''), (''device_id'', JStr ''SER1'')]"

text \<open>The same category with a sub-category that is present and empty.\<close>

definition example_empty_subtype :: "(string, json) fmap" where
  "example_empty_subtype =
     fmap_of_list [(''device_subtype'', JStr []), (''device_type'', JStr ''Chrome'')]"

text \<open>
  A team snapshot in which the address \<open>X\<close> appears in two entries, with the team
  names \<open>A\<close>, \<open>B\<close> and \<open>B\<close>, \<open>C\<close>; the entry of the address \<open>Y\<close>
  has \<open>null\<close> for its teams.
\<close>

definition example_team_entries :: "json list" where
  "example_team_entries =
     [JObj (fmap_of_list [(''device_address'', JStr ''X''),
        (''teams'', JArr [JObj (fmap_of_list [(''team_name'', JStr ''A'')]),
                          JObj (fmap_of_list [(''team_name'', JStr ''B'')])])]),
      JObj (fmap_of_list [(''device_address'', JStr ''Y''), (''teams'', JNull)]),
      JObj (fmap_of_list [(''device_address'', JStr ''X''),
        (''teams'', JArr [JObj (fmap_of_list [(''team_name'', JStr ''B'')]),
                          JObj (fmap_of_list [(''team_name'', JStr ''C'')])])])]"

definition example_teams :: "(string, json) fmap" where
  "example_teams = fmap_of_list [(''devices'', JArr example_team_entries)]"

text \<open>A team snapshot without a device list.\<close>

definition example_teams_no_devices :: "(string, json) fmap" where
  "example_teams_no_devices = fmap_of_list [(''teams'', JArr [])]"

text \<open>A malformed team snapshot: the entry of \<open>X\<close> has \<open>null\<close> for its teams.\<close>

definition example_teams_null :: json where
  "example_teams_null = JObj (fmap_of_list [(''devices'',
     JArr [JObj (fmap_of_list [(''device_address'', JStr ''X''), (''teams'', JNull)])])])"

text \<open>
  A box: the device under test at the address \<open>X\<close>, and a camera and a control that
  list \<open>X\<close> as their device.
\<close>

definition example_dut :: "(string, json) fmap" where
  "example_dut = fmap_of_list [(''device_address'', JStr ''X''), (''device_id'', JStr ''SER-X''),
     (''device_type'', JStr ''android''), (''device_note'', JStr ''rack 1''),
     (''avbox_info'', JObj (fmap_of_list [(''usage'', JStr ''device_under_test''),
        (''devices'', JArr [JStr ''X''])]))]"

definition example_camera :: "(string, json) fmap" where
  "example_camera = fmap_of_list [(''device_address'', JStr ''CAM''),
     (''device_id'', JStr ''SER-CAM''), (''device_type'', JStr ''android''),
     (''avbox_info'', JObj (fmap_of_list [(''usage'', JStr ''camera_device''),
        (''devices'', JArr [JStr ''X''])]))]"

definition example_control :: "(string, json) fmap" where
  "example_control = fmap_of_list [(''device_address'', JStr ''CTL''),
     (''device_id'', JStr ''SER-CTL''), (''device_type'', JStr ''android''),
     (''avbox_info'', JObj (fmap_of_list [(''usage'', JStr ''control''),
        (''devices'', JArr [JStr ''X''])]))]"

text \<open>The device under test again, its auxiliary info without the \<open>devices\<close> subfield.\<close>

definition example_dut_no_devices :: "(string, json) fmap" where
  "example_dut_no_devices = fmap_of_list [(''device_address'', JStr ''X''),
     (''device_id'', JStr ''SER-X''),
     (''device_type'', JStr ''android''), (''device_note'', JStr ''rack 1''),
     (''avbox_info'', JObj (fmap_of_list [(''usage'', JStr ''device_under_test'')]))]"

text \<open>A usage that contains \<open>device_under_test\<close> and is not equal to it.\<close>

definition example_dut_variant :: "(string, json) fmap" where
  "example_dut_variant = fmap_of_list [(''device_address'', JStr ''X''),
     (''device_id'', JStr ''SER-X''),
     (''device_type'', JStr ''android''), (''device_note'', JStr ''rack 1''),
     (''avbox_info'', JObj (fmap_of_list [(''usage'', JStr ''device_under_test_2''),
        (''devices'', JArr [JStr ''X''])]))]"

definition example_dut_variant_no_devices :: "(string, json) fmap" where
  "example_dut_variant_no_devices = fmap_of_list [(''device_address'', JStr ''X''),
     (''device_id'', JStr ''SER-X''),
     (''device_type'', JStr ''android''), (''device_note'', JStr ''rack 1''),
     (''avbox_info'', JObj (fmap_of_list [(''usage'', JStr ''device_under_test_2'')]))]"

text \<open>
  Stand-ins for \<open>str\<close> and \<open>json.dumps\<close> in the examples; the theorems hold for every
  choice of the two functions.
\<close>

fun example_str_of :: "json \<Rightarrow> string" where
  "example_str_of (JStr s) = s"
| "example_str_of JNull = ''None''"
| "example_str_of (JArr xs) = ''[...]''"
| "example_str_of (JObj m) = ''{...}''"

definition example_dumps :: "json \<Rightarrow> string" where
  "example_dumps j = ''{...}''"

text \<open>A store with one inventory row, and devices without auxiliary-usage info.\<close>

definition example_db :: database where
  "example_db = \<lparr>device_inventory =
       [\<lparr>di_device_type = Some ''android'', di_model = Some ''Pixel 6'',
         di_device_skus = None, di_udid = Some ''SER0'', di_host_name = Some ''host-0'',
         di_os_version = Some ''13'', di_location = Some ''Zurich, CH'',
         di_device_notes = None, di_teams = Some [], di_is_avbox = Some False\<rparr>],
     avbox_mapping = [], device_ledger = []\<rparr>"

definition example_plain :: "(string, json) fmap" where
  "example_plain = fmap_of_list [(''device_id'', JStr ''SER1''),
     (''device_address'', JStr ''host-1@SER1''), (''device_type'', JStr ''android''),
     (''model'', JStr ''Pixel 8''), (''hostname'', JStr ''host-1''),
     (''os_version'', JStr ''14''), (''host_city'', JStr ''Zurich''),
     (''host_country'', JStr ''CH'')]"

text \<open>A device with an identifier and without the key \<open>device_address\<close>.\<close>

definition example_no_address :: "(string, json) fmap" where
  "example_no_address = fmap_of_list [(''device_id'', JStr ''SER2''),
     (''device_type'', JStr ''android''), (''model'', JStr ''Pixel 7'')]"

definition example_failing_snapshot :: json where
  "example_failing_snapshot =
     JObj (fmap_of_list [(''devices'', JArr [JObj example_plain, JObj example_no_address])])"

text \<open>A snapshot in which two raw devices resolve to the same unique identifier.\<close>

definition example_plain_twin :: "(string, json) fmap" where
  "example_plain_twin = fmap_of_list [(''device_id'', JStr ''SER1''),
     (''device_address'', JStr ''host-2@SER1''), (''device_type'', JStr ''android''),
     (''model'', JStr ''Pixel 8 Pro''), (''hostname'', JStr ''host-2'')]"

definition example_twin_snapshot :: json where
  "example_twin_snapshot =
     JObj (fmap_of_list [(''devices'', JArr [JObj example_plain, JObj example_plain_twin])])"

text \<open>The device of the row in \<open>example_db\<close>, with another model and OS version.\<close>

definition example_update :: "(string, json) fmap" where
  "example_update = fmap_of_list [(''device_id'', JStr ''SER0''),
     (''device_address'', JStr ''host-0@SER0''), (''device_type'', JStr ''android''),
     (''model'', JStr ''Pixel 6a''), (''hostname'', JStr ''host-0''),
     (''os_version'', JStr ''15''), (''host_city'', JStr ''Zurich''),
     (''host_country'', JStr ''CH'')]"

text \<open>A device whose auxiliary-usage descriptor is present and empty.\<close>

definition example_empty_avbox :: "(string, json) fmap" where
  "example_empty_avbox = fmap_of_list [(''device_id'', JStr ''SER3''),
     (''device_address'', JStr ''host-3@SER3''), (''device_type'', JStr ''android''),
     (''avbox_info'', JObj fmempty)]"

text \<open>The same device with a list for its model, a value that no column takes.\<close>

definition example_list_model :: "(string, json) fmap" where
  "example_list_model = fmap_of_list [(''device_id'', JStr ''SER0''),
     (''device_address'', JStr ''host-0@SER0''), (''device_type'', JStr ''android''),
     (''model'', JArr [JStr ''Pixel 6a''])]"


section \<open>Identity resolver: the effective category and the unique identifier\<close>

lemma get_effective_device_type_obj:
  "get_effective_device_type (JObj m) =
     (if truthy (dget m ''device_subtype'')
      then Inr (dget m ''device_subtype'')
      else (case lookup_or m ''device_type'' (JStr []) of
              JStr s \<Rightarrow>
                if lower s \<in> {''chrome'', ''firefox'', ''safari''}
                then Inr (JStr ''browser'') else Inr (JStr s)
            | JNull \<Rightarrow> Inl AttributeError
            | JArr xs \<Rightarrow> Inl AttributeError
            | JObj m' \<Rightarrow> Inl AttributeError))"
  by (simp add: get_effective_device_type_def dict_get_def dget_def split: json.splits)

lemma get_unique_device_id_obj:
  assumes "get_effective_device_type (JObj m) = Inr c"
  shows "get_unique_device_id (JObj m) =
      Inr (if c = JStr ''browser'' then dget m ''device_address'' else dget m ''device_id'')"
  using assms by (simp add: get_unique_device_id_def dict_get_def dget_def)

lemma effective_type_without_subtype:
  assumes "get_effective_device_type (JObj m) = Inr c"
    and "\<not> truthy (dget m ''device_subtype'')"
  shows "\<exists>s. lookup_or m ''device_type'' (JStr []) = JStr s \<and>
        c = (if lower s \<in> {''chrome'', ''firefox'', ''safari''}
             then JStr ''browser'' else JStr s)"
proof (cases "lookup_or m ''device_type'' (JStr [])")
  case (JStr s)
  have "c = (if lower s \<in> {''chrome'', ''firefox'', ''safari''}
             then JStr ''browser'' else JStr s)"
  proof (cases "lower s \<in> {''chrome'', ''firefox'', ''safari''}")
    case True
    with assms JStr show ?thesis by (simp add: get_effective_device_type_obj)
  next
    case False
    with assms JStr show ?thesis by (simp add: get_effective_device_type_obj)
  qed
  with JStr show ?thesis by blast
qed (use assms in \<open>simp_all add: get_effective_device_type_obj\<close>)

text \<open>
  Claim C8, as amended. Whenever the resolver returns a category \<open>c\<close> for a raw device:
  \<open>c\<close> is the sub-category when that field holds a non-empty value; otherwise the raw
  category is a string \<open>s\<close> (the empty string when the field is absent) and \<open>c\<close> is
  \<open>browser\<close> when \<open>s\<close> in lower case is \<open>chrome\<close>, \<open>firefox\<close> or \<open>safari\<close>, else
  \<open>s\<close> unchanged. The unique identifier is the network address when \<open>c\<close> is
  \<open>browser\<close> and the device identifier field otherwise (\<open>None\<close> for a field that is
  absent).
\<close>

theorem unique_id_by_effective_category:
  assumes "get_effective_device_type (JObj m) = Inr c"
  shows "(truthy (dget m ''device_subtype'') \<longrightarrow> c = dget m ''device_subtype'') \<and>
         (\<not> truthy (dget m ''device_subtype'') \<longrightarrow>
            (\<exists>s. lookup_or m ''device_type'' (JStr []) = JStr s \<and>
                 c = (if lower s \<in> {''chrome'', ''firefox'', ''safari''}
                      then JStr ''browser'' else JStr s))) \<and>
         get_unique_device_id (JObj m) =
           Inr (if c = JStr ''browser'' then dget m ''device_address''
                else dget m ''device_id'')"
proof (intro conjI impI)
  assume "truthy (dget m ''device_subtype'')"
  with assms show "c = dget m ''device_subtype''"
    by (simp add: get_effective_device_type_obj)
next
  assume "\<not> truthy (dget m ''device_subtype'')"
  with assms show "\<exists>s. lookup_or m ''device_type'' (JStr []) = JStr s \<and>
      c = (if lower s \<in> {''chrome'', ''firefox'', ''safari''}
           then JStr ''browser'' else JStr s)"
    by (rule effective_type_without_subtype)
next
  from assms show "get_unique_device_id (JObj m) =
      Inr (if c = JStr ''browser'' then dget m ''device_address'' else dget m ''device_id'')"
    by (rule get_unique_device_id_obj)
qed

theorem unique_id_by_effective_category_witness:
  "get_effective_device_type (JObj example_browser) = Inr (JStr ''browser'') \<and>
   \<not> truthy (dget example_browser ''device_subtype'') \<and>
   get_unique_device_id (JObj example_browser) = Inr (JStr ''host-1@chrome'')"
proof -
  have h: "get_effective_device_type (JObj example_browser) = Inr (JStr ''browser'')"
    by code_simp
  have l: "dget example_browser ''device_address'' = JStr ''host-1@chrome''"
    by code_simp
  have n: "\<not> truthy (dget example_browser ''device_subtype'')"
    by code_simp
  have "get_unique_device_id (JObj example_browser) =
      Inr (if JStr ''browser'' = JStr ''browser'' then dget example_browser ''device_address''
           else dget example_browser ''device_id'')"
    using unique_id_by_effective_category [OF h] by (rule conjunct2 [THEN conjunct2])
  with l h n show ?thesis by (simp only: refl if_True simp_thms)
qed

text \<open>
  Claim C8 as stated fails where the sub-category is present but empty: the record
  \<open>example_empty_subtype\<close> has the sub-category \<open>""\<close>, and its effective category is
  \<open>browser\<close>, not the sub-category.
\<close>

theorem effective_category_empty_subtype_counterexample:
  "fmlookup example_empty_subtype ''device_subtype'' = Some (JStr []) \<and>
   get_effective_device_type (JObj example_empty_subtype) = Inr (JStr ''browser'')"
  by code_simp

section \<open>Snapshot diff engine: the removed identifiers\<close>

lemma set_minus_self: "set_minus ids ids = []"
  by (simp add: set_minus_def)

text \<open>
  Claim C1 at the input of the specification. With the persisted identifiers \<open>A\<close>,
  \<open>B\<close>, \<open>C\<close> and the snapshot identifiers \<open>B\<close>, \<open>C\<close>, \<open>D\<close>, \<open>added_ids\<close> is
  \<open>{D}\<close>, and \<open>removed_ids\<close> is empty, not \<open>{A}\<close>: line 206 subtracts the
  persisted identifiers from themselves.
\<close>

theorem removed_ids_empty_at_example:
  "snapshot_diff [JStr ''B'', JStr ''C'', JStr ''D''] [JStr ''A'', JStr ''B'', JStr ''C'']
     = ([JStr ''D''], [])"
  by (simp add: snapshot_diff_def set_minus_def)

section \<open>Team annotator\<close>

lemma set_dedup: "set (dedup xs) = set xs"
  by (induction xs) auto

lemma filter_dedup: "filter P (dedup xs) = dedup (filter P xs)"
proof (induction xs)
  case Nil
  show ?case by simp
next
  case (Cons x xs)
  have c: "filter P (filter (\<lambda>y. y \<noteq> x) (dedup xs)) =
      filter (\<lambda>y. y \<noteq> x) (filter P (dedup xs))"
    by (simp add: conj_commute)
  show ?case
  proof (cases "P x")
    case True
    with Cons c show ?thesis by simp
  next
    case False
    then have "x \<notin> set (dedup (filter P xs))" by (simp add: set_dedup)
    then have "filter (\<lambda>y. y \<noteq> x) (dedup (filter P xs)) = dedup (filter P xs)"
      by (auto simp: filter_id_conv)
    with False Cons c show ?thesis by simp
  qed
qed

lemma dedup_append_filter:
  "dedup (xs @ ys) = dedup xs @ dedup (filter (\<lambda>y. y \<notin> set xs) ys)"
proof (induction xs arbitrary: ys)
  case Nil
  show ?case by simp
next
  case (Cons x xs)
  have "filter (\<lambda>y. y \<noteq> x) (dedup (filter (\<lambda>y. y \<notin> set xs) ys)) =
      dedup (filter (\<lambda>y. y \<notin> set (x # xs)) ys)"
    by (auto simp: filter_dedup intro: arg_cong [where f = dedup] filter_cong)
  with Cons show ?case by simp
qed

text \<open>The inner loop: a name is appended unless it is in the list.\<close>

lemma collect_team_names_wf:
  "list_all wf_team ts \<Longrightarrow>
   collect_team_names ts acc =
     Inr (acc @ dedup (filter (\<lambda>n. n \<notin> set acc) (map team_name ts)))"
proof (induction ts arbitrary: acc)
  case Nil
  show ?case by simp
next
  case (Cons t ts)
  from Cons.prems obtain m v where t: "t = JObj m" and v: "fmlookup m ''team_name'' = Some v"
    by (cases t) auto
  have n: "team_name t = v" using t v by (simp add: dget_def lookup_or_def)
  from Cons.prems have wf: "list_all wf_team ts" by simp
  show ?case
  proof (cases "v \<in> set acc")
    case True
    with t v n Cons.IH [OF wf, of acc] show ?thesis by simp
  next
    case False
    have "filter (\<lambda>n. n \<notin> set (acc @ [v])) (map team_name ts) =
        filter (\<lambda>y. y \<noteq> v) (filter (\<lambda>n. n \<notin> set acc) (map team_name ts))"
      by (auto intro: filter_cong)
    with False t v n Cons.IH [OF wf, of "acc @ [v]"] show ?thesis
      by (simp add: filter_dedup)
  qed
qed

lemma collect_team_names_returns:
  "collect_team_names ts acc = Inr names \<Longrightarrow> list_all wf_team ts"
proof (induction ts arbitrary: acc)
  case Nil
  show ?case by simp
next
  case (Cons t ts)
  from Cons.prems obtain n where n: "subscript_key t ''team_name'' = Inr n"
    by (cases "subscript_key t ''team_name''") auto
  then have "wf_team t" by (cases t) (auto split: option.splits)
  moreover from Cons.prems n have "list_all wf_team ts"
    by (auto intro: Cons.IH)
  ultimately show ?case by simp
qed

text \<open>The outer loop, on entries that can be read, and only on those.\<close>

lemma scan_team_devices_ok:
  "list_all (entry_ok a) entries \<Longrightarrow>
   scan_team_devices a entries acc =
     Inr (acc @ dedup (filter (\<lambda>n. n \<notin> set acc)
       (map team_name (concat (map entry_teams (filter (\<lambda>e. entry_address e = a) entries))))))"
proof (induction entries arbitrary: acc)
  case Nil
  show ?case by simp
next
  case (Cons e entries)
  from Cons.prems obtain m where e: "e = JObj m" by (cases e) auto
  from Cons.prems have ok: "list_all (entry_ok a) entries" by simp
  show ?case
  proof (cases "a = dget m ''device_address''")
    case False
    with e Cons.IH [OF ok, of acc] show ?thesis
      by (auto simp: dict_get_def dget_def)
  next
    case True
    with Cons.prems e obtain ts where ts: "py_iter (lookup_or m ''teams'' (JArr [])) = Inr ts"
      and wts: "list_all wf_team ts"
      by (cases "py_iter (lookup_or m ''teams'' (JArr []))") auto
    let ?new = "dedup (filter (\<lambda>n. n \<notin> set acc) (map team_name ts))"
    let ?rest = "map team_name (concat (map entry_teams
        (filter (\<lambda>e. entry_address e = a) entries)))"
    have step: "scan_team_devices a (e # entries) acc = scan_team_devices a entries (acc @ ?new)"
      using True e ts collect_team_names_wf [OF wts, of acc]
      by (simp add: dict_get_def dget_def)
    have s: "set (acc @ ?new) = set acc \<union> set (map team_name ts)"
      by (auto simp: set_dedup)
    have "filter (\<lambda>n. n \<notin> set acc) (map team_name ts @ ?rest) =
        filter (\<lambda>n. n \<notin> set acc) (map team_name ts) @ filter (\<lambda>n. n \<notin> set acc) ?rest"
      by simp
    then have "dedup (filter (\<lambda>n. n \<notin> set acc) (map team_name ts @ ?rest)) =
        ?new @ dedup (filter (\<lambda>y. y \<notin> set (filter (\<lambda>n. n \<notin> set acc) (map team_name ts)))
          (filter (\<lambda>n. n \<notin> set acc) ?rest))"
      by (simp only: dedup_append_filter)
    also have "filter (\<lambda>y. y \<notin> set (filter (\<lambda>n. n \<notin> set acc) (map team_name ts)))
          (filter (\<lambda>n. n \<notin> set acc) ?rest) = filter (\<lambda>n. n \<notin> set (acc @ ?new)) ?rest"
      unfolding s by (auto intro: filter_cong)
    finally have "acc @ dedup (filter (\<lambda>n. n \<notin> set acc) (map team_name ts @ ?rest)) =
        (acc @ ?new) @ dedup (filter (\<lambda>n. n \<notin> set (acc @ ?new)) ?rest)"
      by simp
    moreover have "map team_name (concat (map entry_teams
        (filter (\<lambda>e. entry_address e = a) (e # entries)))) = map team_name ts @ ?rest"
      using True e ts by (simp add: dget_def)
    ultimately show ?thesis
      using step Cons.IH [OF ok, of "acc @ ?new"] by simp
  qed
qed

lemma scan_team_devices_returns:
  "scan_team_devices a entries acc = Inr names \<Longrightarrow> list_all (entry_ok a) entries"
proof (induction entries arbitrary: acc)
  case Nil
  show ?case by simp
next
  case (Cons e entries)
  from Cons.prems obtain m where e: "e = JObj m"
    by (cases e) (auto simp: dict_get_def)
  show ?case
  proof (cases "a = dget m ''device_address''")
    case False
    with Cons.prems e have "scan_team_devices a entries acc = Inr names"
      by (auto simp: dict_get_def dget_def)
    then have "list_all (entry_ok a) entries" by (rule Cons.IH)
    with False e show ?thesis by auto
  next
    case True
    with Cons.prems e obtain ts where ts: "py_iter (lookup_or m ''teams'' (JArr [])) = Inr ts"
      by (cases "py_iter (lookup_or m ''teams'' (JArr []))")
        (auto simp: dict_get_def dget_def)
    with Cons.prems e True obtain acc' where c: "collect_team_names ts acc = Inr acc'"
      and r: "scan_team_devices a entries acc' = Inr names"
      by (cases "collect_team_names ts acc") (auto simp: dict_get_def dget_def)
    from c have "list_all wf_team ts" by (rule collect_team_names_returns)
    moreover from r have "list_all (entry_ok a) entries" by (rule Cons.IH)
    ultimately show ?thesis using e ts by simp
  qed
qed

lemma fmdom_list_nonempty: "m \<noteq> fmempty \<Longrightarrow> sorted_list_of_fset (fmdom m) \<noteq> []"
proof
  assume m: "m \<noteq> fmempty" and e: "sorted_list_of_fset (fmdom m) = []"
  from m obtain k where "fmlookup m k \<noteq> None"
    by (metis fmap_ext fmempty_lookup)
  then have "k \<in> fset (fmdom m)" by (simp add: fmlookup_dom_iff)
  then have "k \<in> set (sorted_list_of_fset (fmdom m))" by simp
  with e show False by simp
qed

lemma scan_keys_raises:
  "ks \<noteq> [] \<Longrightarrow> scan_team_devices a (map JStr ks) acc = Inl AttributeError"
  by (cases ks) (simp_all add: dict_get_def)

lemma scan_chars_raises:
  "s \<noteq> [] \<Longrightarrow> scan_team_devices a (map (\<lambda>c. JStr [c]) s) acc = Inl AttributeError"
  by (cases s) (simp_all add: dict_get_def)

lemma get_device_teams_returns:
  assumes "get_device_teams a teams_list = Inr names"
  shows "\<not> truthy teams_list \<or>
    (\<exists>m. teams_list = JObj m \<and>
       (\<not> truthy (dget m ''devices'') \<or>
        (\<exists>entries. dget m ''devices'' = JArr entries \<and> list_all (entry_ok a) entries)))"
proof (cases "truthy teams_list")
  case False
  then show ?thesis by simp
next
  case True
  with assms obtain m where m: "teams_list = JObj m"
    by (cases teams_list) (auto simp: get_device_teams_def dict_get_def)
  show ?thesis
  proof (cases "truthy (dget m ''devices'')")
    case False
    with m show ?thesis by simp
  next
    case t: True
    from assms True m t have r: "(case py_iter (dget m ''devices'') of Inl e \<Rightarrow> Inl e
        | Inr ds \<Rightarrow> scan_team_devices a ds []) = Inr names"
      by (simp add: get_device_teams_def dict_get_def dget_def)
    show ?thesis
    proof (cases "dget m ''devices''")
      case JNull
      with t show ?thesis by simp
    next
      case (JStr s)
      with t r show ?thesis by (simp add: scan_chars_raises)
    next
      case (JObj k)
      with t r show ?thesis by (simp add: scan_keys_raises fmdom_list_nonempty)
    next
      case (JArr entries)
      with r have "scan_team_devices a entries [] = Inr names" by simp
      then have "list_all (entry_ok a) entries" by (rule scan_team_devices_returns)
      with m JArr show ?thesis by simp
    qed
  qed
qed

text \<open>
  Claim C7, as amended. The team annotator returns the empty list, without raising, when
  the team snapshot is absent or empty and when it is a dict whose \<open>devices\<close> is absent
  or empty. When \<open>devices\<close> is a list of dicts in which every entry with the address
  asked for has teams that are absent, empty or a list of dicts with a \<open>team_name\<close>, it
  returns the team names of the entries with that address, without repetitions and in the
  order of first appearance; what the other entries hold for their teams is not read.
  These are the only team snapshots on which it returns: on every other one it raises.
\<close>

theorem get_device_teams_dedup:
  "(\<not> truthy teams_list \<longrightarrow> get_device_teams a teams_list = Inr []) \<and>
   (\<forall>m. teams_list = JObj m \<and> \<not> truthy (dget m ''devices'') \<longrightarrow>
      get_device_teams a teams_list = Inr []) \<and>
   (\<forall>m entries. teams_list = JObj m \<and> dget m ''devices'' = JArr entries \<and>
        list_all (entry_ok a) entries \<longrightarrow>
      get_device_teams a teams_list =
        Inr (dedup (map team_name (concat (map entry_teams
          (filter (\<lambda>e. entry_address e = a) entries)))))) \<and>
   (\<forall>names. get_device_teams a teams_list = Inr names \<longrightarrow>
      \<not> truthy teams_list \<or>
      (\<exists>m. teams_list = JObj m \<and>
         (\<not> truthy (dget m ''devices'') \<or>
          (\<exists>entries. dget m ''devices'' = JArr entries \<and> list_all (entry_ok a) entries))))"
proof (intro conjI allI impI)
  assume "\<not> truthy teams_list"
  then show "get_device_teams a teams_list = Inr []"
    by (simp add: get_device_teams_def)
next
  fix m
  assume "teams_list = JObj m \<and> \<not> truthy (dget m ''devices'')"
  then show "get_device_teams a teams_list = Inr []"
    by (simp add: get_device_teams_def dict_get_def dget_def)
next
  fix m entries
  assume h: "teams_list = JObj m \<and> dget m ''devices'' = JArr entries \<and>
    list_all (entry_ok a) entries"
  show "get_device_teams a teams_list =
      Inr (dedup (map team_name (concat (map entry_teams
        (filter (\<lambda>e. entry_address e = a) entries)))))"
  proof (cases "entries = []")
    case True
    with h show ?thesis by (simp add: get_device_teams_def dict_get_def dget_def)
  next
    case False
    then have "truthy (JArr entries)" by simp
    moreover from h have "m \<noteq> fmempty" by (auto simp: dget_def lookup_or_def)
    ultimately show ?thesis
      using h scan_team_devices_ok [of a entries "[]"]
      by (simp add: get_device_teams_def dict_get_def dget_def)
  qed
next
  fix names
  assume "get_device_teams a teams_list = Inr names"
  then show "\<not> truthy teams_list \<or>
      (\<exists>m. teams_list = JObj m \<and>
         (\<not> truthy (dget m ''devices'') \<or>
          (\<exists>entries. dget m ''devices'' = JArr entries \<and> list_all (entry_ok a) entries)))"
    by (rule get_device_teams_returns)
qed

theorem get_device_teams_dedup_witness:
  "get_device_teams (JStr ''X'') JNull = Inr [] \<and>
   get_device_teams (JStr ''X'') (JObj example_teams_no_devices) = Inr [] \<and>
   list_all (entry_ok (JStr ''X'')) example_team_entries \<and>
   get_device_teams (JStr ''X'') (JObj example_teams) = Inr [JStr ''A'', JStr ''B'', JStr ''C''] \<and>
   \<not> list_all (entry_ok (JStr ''Y'')) example_team_entries \<and>
   (\<forall>names. get_device_teams (JStr ''Y'') (JObj example_teams) \<noteq> Inr names)"
proof -
  have 1: "get_device_teams (JStr ''X'') JNull = Inr []"
    using get_device_teams_dedup [of JNull "JStr ''X''"] by simp
  have n: "\<not> truthy (dget example_teams_no_devices ''devices'')"
    by code_simp
  have 2: "get_device_teams (JStr ''X'') (JObj example_teams_no_devices) = Inr []"
    using get_device_teams_dedup [of "JObj example_teams_no_devices" "JStr ''X''"] n by blast
  have d: "dget example_teams ''devices'' = JArr example_team_entries"
    by code_simp
  have t: "truthy (JObj example_teams)" "truthy (dget example_teams ''devices'')"
    by code_simp+
  have w: "list_all (entry_ok (JStr ''X'')) example_team_entries"
    by code_simp
  have v: "dedup (map team_name (concat (map entry_teams
      (filter (\<lambda>e. entry_address e = JStr ''X'') example_team_entries)))) =
      [JStr ''A'', JStr ''B'', JStr ''C'']"
    by code_simp
  have "get_device_teams (JStr ''X'') (JObj example_teams) =
      Inr (dedup (map team_name (concat (map entry_teams
        (filter (\<lambda>e. entry_address e = JStr ''X'') example_team_entries)))))"
    using get_device_teams_dedup [of "JObj example_teams" "JStr ''X''"] d w by blast
  with v have 3: "get_device_teams (JStr ''X'') (JObj example_teams) =
      Inr [JStr ''A'', JStr ''B'', JStr ''C'']"
    by (simp only:)
  have y: "\<not> list_all (entry_ok (JStr ''Y'')) example_team_entries"
    by code_simp
  have 4: "\<forall>names. get_device_teams (JStr ''Y'') (JObj example_teams) \<noteq> Inr names"
  proof (intro allI notI)
    fix names
    assume "get_device_teams (JStr ''Y'') (JObj example_teams) = Inr names"
    with get_device_teams_dedup [of "JObj example_teams" "JStr ''Y''"]
    have "\<not> truthy (JObj example_teams) \<or>
      (\<exists>m. JObj example_teams = JObj m \<and>
         (\<not> truthy (dget m ''devices'') \<or>
          (\<exists>entries. dget m ''devices'' = JArr entries \<and>
             list_all (entry_ok (JStr ''Y'')) entries)))"
      by blast
    with t d y show False by auto
  qed
  from 1 2 w 3 y 4 show ?thesis by (intro conjI)
qed

text \<open>
  Claim C7 as stated fails on a malformed team snapshot: where the entry of the address
  has \<open>null\<close> for its teams, the loop over the teams raises \<open>TypeError\<close>.
\<close>

theorem get_device_teams_malformed_counterexample:
  "get_device_teams (JStr ''X'') example_teams_null = Inl TypeError"
  by code_simp

section \<open>Box grouper\<close>

lemma truthy_dget_nonempty: "truthy (dget m k) \<Longrightarrow> m \<noteq> fmempty"
  by (auto simp: dget_def lookup_or_def)

text \<open>The three ways through \<open>add_avbox_mapping_entry\<close> that the claims are about.\<close>

lemma add_entry_skipped:
  assumes "dget d ''avbox_info'' = JObj info"
    and "\<not> truthy (dget info ''usage'') \<or> \<not> truthy (dget info ''devices'')"
  shows "add_avbox_mapping_entry (JObj d) AVBoxs = Inr AVBoxs"
  using assms by (auto simp: Let_def)

lemma add_entry_dut:
  assumes "dget d ''avbox_info'' = JObj info"
    and "dget info ''usage'' = JStr u" and "sublist ''device_under_test'' u"
    and "truthy (dget info ''devices'')"
    and "dget d ''device_address'' = JStr a" and "a \<noteq> []"
  shows "add_avbox_mapping_entry (JObj d) AVBoxs =
    Inr (AList.map_entry (JStr a)
      (\<lambda>b. b\<lparr>b_device_type := Some (py_or (dget d ''device_subtype'') (dget d ''device_type'')),
              b_device_notes := Some (dget d ''device_note'')\<rparr>)
      (if JStr a \<in> fst ` set AVBoxs then AVBoxs
       else AVBoxs @ [(JStr a, new_bundle (JStr a))]))"
proof -
  from assms(3) have "u \<noteq> []" by auto
  with assms(2) have "truthy (dget info ''usage'')" by simp
  then have "info \<noteq> fmempty" by (rule truthy_dget_nonempty)
  with assms \<open>u \<noteq> []\<close> show ?thesis by (simp add: Let_def)
qed

lemma add_entry_camera:
  assumes "dget d ''avbox_info'' = JObj info"
    and "dget info ''usage'' = JStr ''camera_device''"
    and "dget info ''devices'' = JArr [JStr x]" and "x \<noteq> []"
  shows "add_avbox_mapping_entry (JObj d) AVBoxs =
    Inr (AList.map_entry (JStr x)
      (\<lambda>b. b\<lparr>b_camera_device := Some (dget d ''device_address'')\<rparr>)
      (if JStr x \<in> fst ` set AVBoxs then AVBoxs
       else AVBoxs @ [(JStr x, new_bundle (JStr x))]))"
proof -
  have "truthy (dget info ''usage'')" using assms(2) by simp
  then have "info \<noteq> fmempty" by (rule truthy_dget_nonempty)
  moreover have "\<not> sublist ''device_under_test'' ''camera_device''" by code_simp
  ultimately show ?thesis using assms by (simp add: Let_def)
qed

lemma add_entry_control:
  assumes "dget d ''avbox_info'' = JObj info"
    and "dget info ''usage'' = JStr ''control''"
    and "dget info ''devices'' = JArr [JStr x]" and "x \<noteq> []"
  shows "add_avbox_mapping_entry (JObj d) AVBoxs =
    Inr (AList.map_entry (JStr x)
      (\<lambda>b. b\<lparr>b_control := Some (dget d ''device_address'')\<rparr>)
      (if JStr x \<in> fst ` set AVBoxs then AVBoxs
       else AVBoxs @ [(JStr x, new_bundle (JStr x))]))"
proof -
  have "truthy (dget info ''usage'')" using assms(2) by simp
  then have "info \<noteq> fmempty" by (rule truthy_dget_nonempty)
  moreover have "\<not> sublist ''device_under_test'' ''control''" by code_simp
  moreover have "\<not> sublist ''camera_device'' ''control''" by code_simp
  ultimately show ?thesis using assms by (simp add: Let_def)
qed

lemma ensure_map_entry_lookup:
  "\<exists>b0. map_of (AList.map_entry k f (if k \<in> fst ` set A then A else A @ [(k, nb)])) k
           = Some (f b0) \<and>
        (k \<notin> fst ` set A \<longrightarrow> b0 = nb) \<and> (k \<in> fst ` set A \<longrightarrow> map_of A k = Some b0)"
proof (cases "k \<in> fst ` set A")
  case True
  then obtain b0 where "map_of A k = Some b0"
    by (metis domD dom_map_of_conv_image_fst)
  with True show ?thesis by (simp add: map_of_map_entry)
next
  case False
  then have "map_of A k = None" by (simp add: map_of_eq_None_iff)
  with False show ?thesis by (simp add: map_of_map_entry map_add_def)
qed

lemma permutations_of_three:
  assumes "mset ds = mset [a, b, c]"
  shows "ds \<in> {[a, b, c], [a, c, b], [b, a, c], [b, c, a], [c, a, b], [c, b, a]}"
proof -
  from assms have "length ds = 3"
    by (metis length_Cons list.size(3) mset_eq_length numeral_3_eq_3)
  then obtain x y z where ds: "ds = [x, y, z]"
    by (metis (no_types, lifting) length_0_conv length_Suc_conv numeral_3_eq_3)
  from assms ds show ?thesis
    by (auto simp: add_eq_conv_ex)
qed

lemma group_avboxes_step:
  assumes "dget d ''avbox_info'' = JObj info" and "truthy (dget info ''usage'')"
    and "add_avbox_mapping_entry (JObj d) A = Inr A'"
  shows "group_avboxes (JObj d # rest) A = group_avboxes rest A'"
proof -
  from assms(2) have "info \<noteq> fmempty" by (rule truthy_dget_nonempty)
  with assms(1,3) show ?thesis by (simp add: dict_get_def dget_def)
qed

text \<open>
  Claim C6, as amended. For a raw device with auxiliary-usage info: when the \<open>usage\<close> or
  the \<open>devices\<close> subfield is missing or empty, the box grouper skips the device and
  leaves the bundles as they are. When the usage is a string that names
  \<open>device_under_test\<close>, the \<open>devices\<close> subfield is not empty and the device's own
  address is a non-empty string, the grouper returns bundles in which that address is a
  key; its bundle has the category (the sub-category or else the raw category) and the
  note of this device, and is keyed to the address when it is new.
\<close>

theorem box_grouper_dut_bundle:
  assumes "dget d ''avbox_info'' = JObj info"
  shows "(\<not> truthy (dget info ''usage'') \<or> \<not> truthy (dget info ''devices'') \<longrightarrow>
            add_avbox_mapping_entry (JObj d) AVBoxs = Inr AVBoxs) \<and>
         (dget info ''usage'' = JStr u \<and> sublist ''device_under_test'' u \<and>
          truthy (dget info ''devices'') \<and> dget d ''device_address'' = JStr a \<and> a \<noteq> [] \<longrightarrow>
            (\<exists>AVBoxs' b. add_avbox_mapping_entry (JObj d) AVBoxs = Inr AVBoxs' \<and>
               map_of AVBoxs' (JStr a) = Some b \<and>
               b_device_type b = Some (py_or (dget d ''device_subtype'') (dget d ''device_type'')) \<and>
               b_device_notes b = Some (dget d ''device_note'') \<and>
               (JStr a \<notin> fst ` set AVBoxs \<longrightarrow> b_dut b = JStr a)))"
proof (intro conjI impI)
  assume "\<not> truthy (dget info ''usage'') \<or> \<not> truthy (dget info ''devices'')"
  with assms show "add_avbox_mapping_entry (JObj d) AVBoxs = Inr AVBoxs"
    by (rule add_entry_skipped)
next
  let ?f = "\<lambda>b. b\<lparr>b_device_type := Some (py_or (dget d ''device_subtype'') (dget d ''device_type'')),
              b_device_notes := Some (dget d ''device_note'')\<rparr>"
  let ?A = "if JStr a \<in> fst ` set AVBoxs then AVBoxs else AVBoxs @ [(JStr a, new_bundle (JStr a))]"
  assume h: "dget info ''usage'' = JStr u \<and> sublist ''device_under_test'' u \<and>
    truthy (dget info ''devices'') \<and> dget d ''device_address'' = JStr a \<and> a \<noteq> []"
  with assms have r: "add_avbox_mapping_entry (JObj d) AVBoxs = Inr (AList.map_entry (JStr a) ?f ?A)"
    by (intro add_entry_dut) auto
  obtain b0 where b0: "map_of (AList.map_entry (JStr a) ?f ?A) (JStr a) = Some (?f b0)"
    and new: "JStr a \<notin> fst ` set AVBoxs \<longrightarrow> b0 = new_bundle (JStr a)"
    using ensure_map_entry_lookup [of "JStr a" ?f AVBoxs "new_bundle (JStr a)"] by blast
  from new have "JStr a \<notin> fst ` set AVBoxs \<longrightarrow> b_dut (?f b0) = JStr a"
    by (simp add: new_bundle_def)
  with r b0 show "\<exists>AVBoxs' b. add_avbox_mapping_entry (JObj d) AVBoxs = Inr AVBoxs' \<and>
      map_of AVBoxs' (JStr a) = Some b \<and>
      b_device_type b = Some (py_or (dget d ''device_subtype'') (dget d ''device_type'')) \<and>
      b_device_notes b = Some (dget d ''device_note'') \<and>
      (JStr a \<notin> fst ` set AVBoxs \<longrightarrow> b_dut b = JStr a)"
    by (intro exI [of _ "AList.map_entry (JStr a) ?f ?A"] exI [of _ "?f b0"]) simp
qed

theorem box_grouper_dut_bundle_witness:
  "add_avbox_mapping_entry (JObj example_dut) [] =
     Inr [(JStr ''X'', \<lparr>b_dut = JStr ''X'', b_device_type = Some (JStr ''android''),
        b_device_notes = Some (JStr ''rack 1''), b_camera_device = None, b_control = None\<rparr>)] \<and>
   (\<exists>AVBoxs' b. add_avbox_mapping_entry (JObj example_dut) [] = Inr AVBoxs' \<and>
      map_of AVBoxs' (JStr ''X'') = Some b \<and> b_device_type b = Some (JStr ''android'') \<and>
      b_device_notes b = Some (JStr ''rack 1'') \<and> b_dut b = JStr ''X'') \<and>
   add_avbox_mapping_entry (JObj example_dut_no_devices) [] = Inr []"
proof -
  have i: "dget example_dut ''avbox_info'' = JObj (fmap_of_list
      [(''usage'', JStr ''device_under_test''), (''devices'', JArr [JStr ''X''])])"
    by code_simp
  have u: "dget (fmap_of_list [(''usage'', JStr ''device_under_test''),
      (''devices'', JArr [JStr ''X''])]) ''usage'' = JStr ''device_under_test''"
    by code_simp
  have v: "truthy (dget (fmap_of_list [(''usage'', JStr ''device_under_test''),
      (''devices'', JArr [JStr ''X''])]) ''devices'')"
    by code_simp
  have a: "dget example_dut ''device_address'' = JStr ''X''"
    by code_simp
  have t: "py_or (dget example_dut ''device_subtype'') (dget example_dut ''device_type'') =
      JStr ''android''"
    by code_simp
  have n: "dget example_dut ''device_note'' = JStr ''rack 1''"
    by code_simp
  have 1: "add_avbox_mapping_entry (JObj example_dut) [] =
     Inr [(JStr ''X'', \<lparr>b_dut = JStr ''X'', b_device_type = Some (JStr ''android''),
        b_device_notes = Some (JStr ''rack 1''), b_camera_device = None, b_control = None\<rparr>)]"
    by code_simp
  have "\<exists>AVBoxs' b. add_avbox_mapping_entry (JObj example_dut) [] = Inr AVBoxs' \<and>
      map_of AVBoxs' (JStr ''X'') = Some b \<and>
      b_device_type b = Some (py_or (dget example_dut ''device_subtype'')
        (dget example_dut ''device_type'')) \<and>
      b_device_notes b = Some (dget example_dut ''device_note'') \<and>
      (JStr ''X'' \<notin> fst ` set [] \<longrightarrow> b_dut b = JStr ''X'')"
    using box_grouper_dut_bundle [OF i, where u = "''device_under_test''" and a = "''X''"
        and AVBoxs = "[]"] u v a
    by simp
  then have 2: "\<exists>AVBoxs' b. add_avbox_mapping_entry (JObj example_dut) [] = Inr AVBoxs' \<and>
      map_of AVBoxs' (JStr ''X'') = Some b \<and> b_device_type b = Some (JStr ''android'') \<and>
      b_device_notes b = Some (JStr ''rack 1'') \<and> b_dut b = JStr ''X''"
    unfolding t n by simp
  have j: "dget example_dut_no_devices ''avbox_info'' =
      JObj (fmap_of_list [(''usage'', JStr ''device_under_test'')])"
    by code_simp
  have w: "\<not> truthy (dget (fmap_of_list [(''usage'', JStr ''device_under_test'')]) ''devices'')"
    by code_simp
  have 3: "add_avbox_mapping_entry (JObj example_dut_no_devices) [] = Inr []"
    using box_grouper_dut_bundle [OF j, where AVBoxs = "[]"] w by blast
  from 1 2 3 show ?thesis by (intro conjI)
qed

text \<open>
  Claim C6 as stated fails for a device under test whose auxiliary info has no
  \<open>devices\<close> subfield: its own address would do as the key, and yet no bundle is made.
\<close>

theorem box_grouper_dut_skipped_counterexample:
  "dget example_dut_no_devices ''device_address'' = JStr ''X'' \<and>
   add_avbox_mapping_entry (JObj example_dut_no_devices) [] = Inr []"
  by code_simp

lemma in_inventory_obj:
  assumes "dget d ''avbox_info'' = JObj info" and "truthy (dget info ''usage'')"
  shows "in_inventory (JObj d) = Inr (dget info ''usage'' = JStr ''device_under_test'')"
proof -
  from assms(2) have "info \<noteq> fmempty" by (rule truthy_dget_nonempty)
  with assms(1) show ?thesis by (simp add: in_inventory_def dict_get_def dget_def)
qed

text \<open>
  Claim C10, as amended. The box grouper tests the role by containment and the inventory
  loop by equality: a raw device whose usage contains \<open>device_under_test\<close> without being
  equal to it, whose \<open>devices\<close> subfield is not empty and whose address is a non-empty
  string, gets a device-under-test bundle with its category and note, and is not written
  to the inventory.
\<close>

theorem substring_dut_grouped_not_in_inventory:
  assumes "dget d ''avbox_info'' = JObj info"
    and "dget info ''usage'' = JStr u"
    and "sublist ''device_under_test'' u" and "u \<noteq> ''device_under_test''"
    and "truthy (dget info ''devices'')"
    and "dget d ''device_address'' = JStr a" and "a \<noteq> []"
  shows "(\<exists>AVBoxs' b. add_avbox_mapping_entry (JObj d) AVBoxs = Inr AVBoxs' \<and>
            map_of AVBoxs' (JStr a) = Some b \<and>
            b_device_type b = Some (py_or (dget d ''device_subtype'') (dget d ''device_type'')) \<and>
            b_device_notes b = Some (dget d ''device_note'')) \<and>
         in_inventory (JObj d) = Inr False"
proof
  let ?f = "\<lambda>b. b\<lparr>b_device_type := Some (py_or (dget d ''device_subtype'') (dget d ''device_type'')),
              b_device_notes := Some (dget d ''device_note'')\<rparr>"
  let ?A = "if JStr a \<in> fst ` set AVBoxs then AVBoxs else AVBoxs @ [(JStr a, new_bundle (JStr a))]"
  from assms have r: "add_avbox_mapping_entry (JObj d) AVBoxs = Inr (AList.map_entry (JStr a) ?f ?A)"
    by (intro add_entry_dut)
  obtain b0 where b0: "map_of (AList.map_entry (JStr a) ?f ?A) (JStr a) = Some (?f b0)"
    using ensure_map_entry_lookup [of "JStr a" ?f AVBoxs "new_bundle (JStr a)"] by blast
  with r show "\<exists>AVBoxs' b. add_avbox_mapping_entry (JObj d) AVBoxs = Inr AVBoxs' \<and>
      map_of AVBoxs' (JStr a) = Some b \<and>
      b_device_type b = Some (py_or (dget d ''device_subtype'') (dget d ''device_type'')) \<and>
      b_device_notes b = Some (dget d ''device_note'')"
    by (intro exI [of _ "AList.map_entry (JStr a) ?f ?A"] exI [of _ "?f b0"]) simp
next
  from assms(3) have "u \<noteq> []" by auto
  with assms(2) have "truthy (dget info ''usage'')" by simp
  with assms(1) have "in_inventory (JObj d) = Inr (dget info ''usage'' = JStr ''device_under_test'')"
    by (rule in_inventory_obj)
  with assms(2,4) show "in_inventory (JObj d) = Inr False" by simp
qed

theorem substring_dut_grouped_not_in_inventory_witness:
  "sublist ''device_under_test'' ''device_under_test_2'' \<and>
   (\<exists>AVBoxs' b. add_avbox_mapping_entry (JObj example_dut_variant) [] = Inr AVBoxs' \<and>
      map_of AVBoxs' (JStr ''X'') = Some b \<and> b_device_type b = Some (JStr ''android'') \<and>
      b_device_notes b = Some (JStr ''rack 1'')) \<and>
   in_inventory (JObj example_dut_variant) = Inr False"
proof -
  have i: "dget example_dut_variant ''avbox_info'' = JObj (fmap_of_list
      [(''usage'', JStr ''device_under_test_2''), (''devices'', JArr [JStr ''X''])])"
    by code_simp
  have u: "dget (fmap_of_list [(''usage'', JStr ''device_under_test_2''),
      (''devices'', JArr [JStr ''X''])]) ''usage'' = JStr ''device_under_test_2''"
    by code_simp
  have v: "truthy (dget (fmap_of_list [(''usage'', JStr ''device_under_test_2''),
      (''devices'', JArr [JStr ''X''])]) ''devices'')"
    by code_simp
  have s: "sublist ''device_under_test'' ''device_under_test_2''"
    by code_simp
  have ne: "''device_under_test_2'' \<noteq> ''device_under_test''"
    by simp
  have a: "dget example_dut_variant ''device_address'' = JStr ''X''"
    by code_simp
  have x: "''X'' \<noteq> []"
    by simp
  have t: "py_or (dget example_dut_variant ''device_subtype'')
      (dget example_dut_variant ''device_type'') = JStr ''android''"
    by code_simp
  have n: "dget example_dut_variant ''device_note'' = JStr ''rack 1''"
    by code_simp
  note r = substring_dut_grouped_not_in_inventory [OF i u s ne v a x, of "[]"]
  from r have 1: "\<exists>AVBoxs' b. add_avbox_mapping_entry (JObj example_dut_variant) [] = Inr AVBoxs' \<and>
      map_of AVBoxs' (JStr ''X'') = Some b \<and> b_device_type b = Some (JStr ''android'') \<and>
      b_device_notes b = Some (JStr ''rack 1'')"
    unfolding t n by (rule conjunct1)
  from r have 2: "in_inventory (JObj example_dut_variant) = Inr False"
    by (rule conjunct2)
  from s 1 2 show ?thesis by (intro conjI)
qed

text \<open>
  Claim C10 as stated fails for a usage that contains \<open>device_under_test\<close> where the
  auxiliary info has no \<open>devices\<close> subfield: the device is left out of the inventory and
  is not grouped either.
\<close>

theorem substring_dut_not_grouped_counterexample:
  "dget example_dut_variant_no_devices ''avbox_info'' =
     JObj (fmap_of_list [(''usage'', JStr ''device_under_test_2'')]) \<and>
   sublist ''device_under_test'' ''device_under_test_2'' \<and>
   add_avbox_mapping_entry (JObj example_dut_variant_no_devices) [] = Inr [] \<and>
   in_inventory (JObj example_dut_variant_no_devices) = Inr False"
  by code_simp

text \<open>
  Claim C4, as amended. Given three raw records, in any order: a device under test with
  the non-empty address \<open>X\<close>, the usage \<open>device_under_test\<close> and a \<open>devices\<close>
  subfield that is not empty; a camera with the usage \<open>camera_device\<close> and the devices
  \<open>[X]\<close>; a control with the usage \<open>control\<close> and the devices \<open>[X]\<close>. The box
  grouper then produces the one bundle keyed by \<open>X\<close>, with the category and the note of
  the device under test and with the addresses of the camera and of the control.
\<close>

theorem box_grouping_any_order:
  assumes "dget dut ''device_address'' = JStr X" and "X \<noteq> []"
    and "dget dut ''avbox_info'' = JObj dut_info"
    and "dget dut_info ''usage'' = JStr ''device_under_test''"
    and "truthy (dget dut_info ''devices'')"
    and "dget cam ''avbox_info'' = JObj cam_info"
    and "dget cam_info ''usage'' = JStr ''camera_device''"
    and "dget cam_info ''devices'' = JArr [JStr X]"
    and "dget ctl ''avbox_info'' = JObj ctl_info"
    and "dget ctl_info ''usage'' = JStr ''control''"
    and "dget ctl_info ''devices'' = JArr [JStr X]"
    and "mset ds = mset [JObj dut, JObj cam, JObj ctl]"
  shows "group_avboxes ds [] =
    Inr [(JStr X,
      \<lparr>b_dut = JStr X,
       b_device_type = Some (py_or (dget dut ''device_subtype'') (dget dut ''device_type'')),
       b_device_notes = Some (dget dut ''device_note''),
       b_camera_device = Some (dget cam ''device_address''),
       b_control = Some (dget ctl ''device_address'')\<rparr>)]"
proof -
  have sd: "sublist ''device_under_test'' ''device_under_test''" by simp
  note ed = add_entry_dut [OF assms(3) assms(4) sd assms(5) assms(1) assms(2)]
  note ec = add_entry_camera [OF assms(6) assms(7) assms(8) assms(2)]
  note et = add_entry_control [OF assms(9) assms(10) assms(11) assms(2)]
  have td: "truthy (dget dut_info ''usage'')" using assms(4) by simp
  have tc: "truthy (dget cam_info ''usage'')" using assms(7) by simp
  have tt: "truthy (dget ctl_info ''usage'')" using assms(10) by simp
  note gd = group_avboxes_step [OF assms(3) td ed]
  note gc = group_avboxes_step [OF assms(6) tc ec]
  note gt = group_avboxes_step [OF assms(9) tt et]
  from assms(12) have "ds \<in> {[JObj dut, JObj cam, JObj ctl], [JObj dut, JObj ctl, JObj cam],
      [JObj cam, JObj dut, JObj ctl], [JObj cam, JObj ctl, JObj dut],
      [JObj ctl, JObj dut, JObj cam], [JObj ctl, JObj cam, JObj dut]}"
    by (rule permutations_of_three)
  then consider "ds = [JObj dut, JObj cam, JObj ctl]" | "ds = [JObj dut, JObj ctl, JObj cam]"
    | "ds = [JObj cam, JObj dut, JObj ctl]" | "ds = [JObj cam, JObj ctl, JObj dut]"
    | "ds = [JObj ctl, JObj dut, JObj cam]" | "ds = [JObj ctl, JObj cam, JObj dut]"
    by auto
  then show ?thesis
  proof cases
    case 1
    then show ?thesis by (simp add: gd gc gt new_bundle_def del: group_avboxes.simps(2))
  next
    case 2
    then show ?thesis by (simp add: gd gc gt new_bundle_def del: group_avboxes.simps(2))
  next
    case 3
    then show ?thesis by (simp add: gd gc gt new_bundle_def del: group_avboxes.simps(2))
  next
    case 4
    then show ?thesis by (simp add: gd gc gt new_bundle_def del: group_avboxes.simps(2))
  next
    case 5
    then show ?thesis by (simp add: gd gc gt new_bundle_def del: group_avboxes.simps(2))
  next
    case 6
    then show ?thesis by (simp add: gd gc gt new_bundle_def del: group_avboxes.simps(2))
  qed
qed

theorem box_grouping_any_order_witness:
  "mset [JObj example_camera, JObj example_control, JObj example_dut] =
     mset [JObj example_dut, JObj example_camera, JObj example_control] \<and>
   group_avboxes [JObj example_camera, JObj example_control, JObj example_dut] [] =
     Inr [(JStr ''X'',
       \<lparr>b_dut = JStr ''X'', b_device_type = Some (JStr ''android''),
        b_device_notes = Some (JStr ''rack 1''), b_camera_device = Some (JStr ''CAM''),
        b_control = Some (JStr ''CTL'')\<rparr>)]"
proof -
  have a: "dget example_dut ''device_address'' = JStr ''X''" by code_simp
  have x: "''X'' \<noteq> []" by simp
  have di: "dget example_dut ''avbox_info'' = JObj (fmap_of_list
      [(''usage'', JStr ''device_under_test''), (''devices'', JArr [JStr ''X''])])"
    by code_simp
  have du: "dget (fmap_of_list [(''usage'', JStr ''device_under_test''),
      (''devices'', JArr [JStr ''X''])]) ''usage'' = JStr ''device_under_test''"
    by code_simp
  have dd: "truthy (dget (fmap_of_list [(''usage'', JStr ''device_under_test''),
      (''devices'', JArr [JStr ''X''])]) ''devices'')"
    by code_simp
  have ci: "dget example_camera ''avbox_info'' = JObj (fmap_of_list
      [(''usage'', JStr ''camera_device''), (''devices'', JArr [JStr ''X''])])"
    by code_simp
  have cu: "dget (fmap_of_list [(''usage'', JStr ''camera_device''),
      (''devices'', JArr [JStr ''X''])]) ''usage'' = JStr ''camera_device''"
    by code_simp
  have cd: "dget (fmap_of_list [(''usage'', JStr ''camera_device''),
      (''devices'', JArr [JStr ''X''])]) ''devices'' = JArr [JStr ''X'']"
    by code_simp
  have ti: "dget example_control ''avbox_info'' = JObj (fmap_of_list
      [(''usage'', JStr ''control''), (''devices'', JArr [JStr ''X''])])"
    by code_simp
  have tu: "dget (fmap_of_list [(''usage'', JStr ''control''),
      (''devices'', JArr [JStr ''X''])]) ''usage'' = JStr ''control''"
    by code_simp
  have td: "dget (fmap_of_list [(''usage'', JStr ''control''),
      (''devices'', JArr [JStr ''X''])]) ''devices'' = JArr [JStr ''X'']"
    by code_simp
  have p: "mset [JObj example_camera, JObj example_control, JObj example_dut] =
      mset [JObj example_dut, JObj example_camera, JObj example_control]"
    by simp
  have t: "py_or (dget example_dut ''device_subtype'') (dget example_dut ''device_type'') =
      JStr ''android''"
    by code_simp
  have n: "dget example_dut ''device_note'' = JStr ''rack 1''" by code_simp
  have ca: "dget example_camera ''device_address'' = JStr ''CAM''" by code_simp
  have ta: "dget example_control ''device_address'' = JStr ''CTL''" by code_simp
  have "group_avboxes [JObj example_camera, JObj example_control, JObj example_dut] [] =
     Inr [(JStr ''X'',
       \<lparr>b_dut = JStr ''X'', b_device_type = Some (JStr ''android''),
        b_device_notes = Some (JStr ''rack 1''), b_camera_device = Some (JStr ''CAM''),
        b_control = Some (JStr ''CTL'')\<rparr>)]"
    using box_grouping_any_order [OF a x di du dd ci cu cd ti tu td p]
    unfolding t n ca ta .
  with p show ?thesis by (intro conjI)
qed

text \<open>
  Claim C4 as stated fails where the record of the device under test has the usage and the
  address \<open>X\<close> and no \<open>devices\<close> subfield: the bundle of \<open>X\<close> has the two companion
  addresses and no category and no note.
\<close>

theorem box_grouping_without_devices_counterexample:
  "group_avboxes [JObj example_dut_no_devices, JObj example_camera, JObj example_control] [] =
     Inr [(JStr ''X'',
       \<lparr>b_dut = JStr ''X'', b_device_type = None, b_device_notes = None,
        b_camera_device = Some (JStr ''CAM''), b_control = Some (JStr ''CTL'')\<rparr>)]"
  by code_simp

section \<open>Reconciler: what a loop preserves\<close>

lemma for_each_invariant:
  assumes "for_each body xs s = (r, s')" and "P s"
    and "\<And>x t r' t'. x \<in> set xs \<Longrightarrow> P t \<Longrightarrow> body x t = (r', t') \<Longrightarrow> P t'"
  shows "P s'"
  using assms
proof (induction xs arbitrary: s)
  case Nil
  then show ?case by simp
next
  case (Cons x xs)
  obtain r1 s1 where b: "body x s = (r1, s1)" by (cases "body x s")
  have p1: "P s1" using Cons.prems(3) [of x s r1 s1] Cons.prems(2) b by simp
  show ?case
  proof (cases r1)
    case None
    with b Cons.prems(1) have "for_each body xs s1 = (r, s')" by simp
    then show ?thesis using p1 Cons.prems(3) by (intro Cons.IH [of s1]) auto
  next
    case (Some e)
    with b Cons.prems(1) have "s' = s1" by simp
    with p1 show ?thesis by simp
  qed
qed

subsection \<open>The persisted state changes at the commit only\<close>

lemma persisted_add_ledger: "persisted (add_ledger u st de s) = persisted s"
  by (simp add: add_ledger_def split: option.splits)

lemma persisted_upsert_inventory:
  "upsert_inventory d s = (r, s') \<Longrightarrow> persisted s' = persisted s"
  by (auto simp: upsert_inventory_def split: option.splits if_splits)

lemma persisted_upsert_avbox:
  "upsert_avbox item s = (r, s') \<Longrightarrow> persisted s' = persisted s"
  by (auto simp: upsert_avbox_def split: option.splits if_splits)

lemma persisted_remove_device:
  "remove_device dumps u s = (r, s') \<Longrightarrow> persisted s' = persisted s"
  by (auto simp: remove_device_def Let_def persisted_add_ledger
      split: option.splits if_splits list.splits)

lemma persisted_sync_device:
  "sync_device str_of dumps teams A added device s = (r, s') \<Longrightarrow> persisted s' = persisted s"
  by (auto simp: sync_device_def persisted_add_ledger
      split: sum.splits if_splits prod.splits option.splits
      dest: persisted_upsert_inventory)

lemma persisted_for_each:
  assumes "for_each body xs s = (r, s')"
    and "\<And>x t r' t'. body x t = (r', t') \<Longrightarrow> persisted t' = persisted t"
  shows "persisted s' = persisted s"
  using assms(1)
proof (rule for_each_invariant [where P = "\<lambda>t. persisted t = persisted s"])
  show "persisted s = persisted s" by simp
next
  fix x t r' t'
  assume "persisted t = persisted s" and "body x t = (r', t')"
  then show "persisted t' = persisted s" using assms(2) by metis
qed

lemma persisted_commit_failed: "commit s = (Some e, s') \<Longrightarrow> persisted s' = persisted s"
  by (auto simp: commit_def split: option.splits)

lemma persisted_remove_loop:
  "for_each (remove_device dumps) xs s = (r, s') \<Longrightarrow> persisted s' = persisted s"
  by (erule persisted_for_each) (rule persisted_remove_device)

lemma persisted_sync_loop:
  "for_each (sync_device str_of dumps teams A added) xs s = (r, s') \<Longrightarrow>
   persisted s' = persisted s"
  by (erule persisted_for_each) (rule persisted_sync_device)

lemma persisted_avbox_loop:
  "for_each upsert_avbox xs s = (r, s') \<Longrightarrow> persisted s' = persisted s"
  by (erule persisted_for_each) (rule persisted_upsert_avbox)

text \<open>What \<open>and_then\<close> does, by the outcome of the first statement.\<close>

lemma and_then_cases:
  assumes "and_then f g s = (r, s')"
  obtains (raised) e where "f s = (Some e, s')" and "r = Some e"
  | (went_on) s1 where "f s = (None, s1)" and "g s1 = (r, s')"
  using assms by (auto simp: and_then_def split: prod.splits option.splits)

lemma and_then_invariant:
  assumes "and_then f g s = (r, s')" and "P s"
    and "\<And>t r' t'. P t \<Longrightarrow> f t = (r', t') \<Longrightarrow> P t'"
    and "\<And>t r' t'. P t \<Longrightarrow> g t = (r', t') \<Longrightarrow> P t'"
  shows "P s'"
  using assms(1)
proof (cases rule: and_then_cases)
  case (raised e)
  then show ?thesis using assms(2,3) by blast
next
  case (went_on s1)
  then show ?thesis using assms(2,3,4) by blast
qed

lemma and_then_failed_persisted:
  assumes "and_then f g s = (Some e, s')"
    and "\<And>t r' t'. f t = (r', t') \<Longrightarrow> persisted t' = persisted t"
    and "\<And>t e' t'. g t = (Some e', t') \<Longrightarrow> persisted t' = persisted t"
  shows "persisted s' = persisted s"
  using assms(1)
proof (cases rule: and_then_cases)
  case (raised e)
  then show ?thesis using assms(2) by blast
next
  case (went_on s1)
  then show ?thesis using assms(2,3) by metis
qed

text \<open>The part of \<open>main_try\<close> that changes the session, and when it is reached.\<close>

lemma main_try_cases:
  assumes "main_try str_of dumps devices_list_raw devices_team_list s = (r, s')"
  obtains (untouched) "s' = s"
  | (applied) devices_json devices AVBoxs_data api_ids
    where "truthy devices_list_raw"
      and "dict_get devices_list_raw ''devices'' = Inr devices_json"
      and "truthy devices_json" and "py_iter devices_json = Inr devices"
      and "group_avboxes devices [] = Inr AVBoxs_data"
      and "api_unique_ids devices [] = Inr api_ids"
      and "\<not> unflushable s"
      and "and_then (for_each (remove_device dumps) [])
             (and_then
                (for_each (sync_device str_of dumps devices_team_list AVBoxs_data
                   (set_minus api_ids (remdups (map (\<lambda>x. column_value (di_udid x))
                      (device_inventory (pending s)))))) devices)
                (and_then (for_each upsert_avbox AVBoxs_data) commit)) s = (r, s')"
  using assms
  by (auto simp: main_try_def Let_def snapshot_diff_def set_minus_def [of "remdups _"]
      autoflush_def
      split: if_splits sum.splits option.splits)

lemma changes_failed_persisted:
  assumes "and_then (for_each (remove_device dumps) xs)
     (and_then (for_each (sync_device str_of dumps teams A added) ys)
        (and_then (for_each upsert_avbox zs) commit)) s = (Some e, s')"
  shows "persisted s' = persisted s"
  using assms
proof (cases rule: and_then_cases)
  case (raised e)
  then show ?thesis by (simp add: persisted_remove_loop)
next
  case a: (went_on s1)
  from a(1) have p1: "persisted s1 = persisted s" by (rule persisted_remove_loop)
  from a(2) show ?thesis
  proof (cases rule: and_then_cases)
    case (raised e)
    with p1 show ?thesis by (simp add: persisted_sync_loop)
  next
    case b: (went_on s2)
    from b(1) have p2: "persisted s2 = persisted s1" by (rule persisted_sync_loop)
    from b(2) show ?thesis
    proof (cases rule: and_then_cases)
      case (raised e)
      with p1 p2 show ?thesis by (simp add: persisted_avbox_loop)
    next
      case c: (went_on s3)
      from c(1) have "persisted s3 = persisted s2" by (rule persisted_avbox_loop)
      moreover from c(2) have "persisted s' = persisted s3" by (rule persisted_commit_failed)
      ultimately show ?thesis using p1 p2 by simp
    qed
  qed
qed

lemma main_try_failed_persisted:
  assumes "main_try str_of dumps devices_list_raw devices_team_list s = (Some e, s')"
  shows "persisted s' = persisted s"
  using assms
proof (cases rule: main_try_cases)
  case untouched
  then show ?thesis by simp
next
  case (applied devices_json devices AVBoxs_data api_ids)
  from applied(8) show ?thesis by (rule changes_failed_persisted)
qed

text \<open>
  Claim C2. If the \<open>try\<close> block raises, at whatever point, the persisted state after the
  run is the persisted state before it, and so is the state the session sees once it is
  rolled back: none of the changes made before the fault survives.
\<close>

theorem fault_leaves_persisted_state:
  assumes "fst (main_try str_of dumps devices_list_raw devices_team_list (Session db)) = Some e"
  shows "main str_of dumps db devices_list_raw devices_team_list = db \<and>
    pending (rollback (snd (main_try str_of dumps devices_list_raw devices_team_list
      (Session db)))) = db"
proof -
  obtain s' where r: "main_try str_of dumps devices_list_raw devices_team_list (Session db)
      = (Some e, s')"
    using assms by (cases "main_try str_of dumps devices_list_raw devices_team_list (Session db)")
      simp
  then have "persisted s' = persisted (Session db)"
    by (rule main_try_failed_persisted)
  then have "persisted s' = db" by (simp add: Session_def)
  with r show ?thesis by (simp add: main_def rollback_def close_def)
qed

lemma example_failing_run:
  "main_try example_str_of example_dumps example_failing_snapshot JNull (Session example_db) =
    (Some KeyError,
     \<lparr>persisted = example_db,
      pending = \<lparr>device_inventory = device_inventory example_db @
          [\<lparr>di_device_type = Some ''android'', di_model = Some ''Pixel 8'',
            di_device_skus = None, di_udid = Some ''SER1'', di_host_name = Some ''host-1'',
            di_os_version = Some ''14'', di_location = Some ''Zurich, CH'',
            di_device_notes = None, di_teams = Some [], di_is_avbox = Some False\<rparr>,
           \<lparr>di_device_type = Some ''android'', di_model = Some ''Pixel 7'',
            di_device_skus = None, di_udid = Some ''SER2'', di_host_name = None,
            di_os_version = None, di_location = Some '', '',
            di_device_notes = None, di_teams = Some [], di_is_avbox = Some False\<rparr>],
        avbox_mapping = [],
        device_ledger = [\<lparr>dl_udid = Some ''SER1'', dl_status = Some ''added'',
          dl_details = Some ''{...}''\<rparr>]\<rparr>,
      unflushable = False\<rparr>)"
  by code_simp

theorem fault_leaves_persisted_state_witness:
  "fst (main_try example_str_of example_dumps example_failing_snapshot JNull
      (Session example_db)) = Some KeyError \<and>
   length (device_inventory (pending (snd (main_try example_str_of example_dumps
      example_failing_snapshot JNull (Session example_db))))) = 3 \<and>
   length (device_ledger (pending (snd (main_try example_str_of example_dumps
      example_failing_snapshot JNull (Session example_db))))) = 1 \<and>
   main example_str_of example_dumps example_db example_failing_snapshot JNull = example_db"
proof -
  have h: "fst (main_try example_str_of example_dumps example_failing_snapshot JNull
      (Session example_db)) = Some KeyError"
    by (simp add: example_failing_run)
  have i: "length (device_inventory (pending (snd (main_try example_str_of example_dumps
      example_failing_snapshot JNull (Session example_db))))) = 3"
    unfolding example_failing_run by (simp add: example_db_def)
  have l: "length (device_ledger (pending (snd (main_try example_str_of example_dumps
      example_failing_snapshot JNull (Session example_db))))) = 1"
    by (simp add: example_failing_run)
  from fault_leaves_persisted_state [OF h]
  have "main example_str_of example_dumps example_db example_failing_snapshot JNull = example_db"
    by (rule conjunct1)
  with h i l show ?thesis by (intro conjI)
qed

section \<open>Reconciler: one inventory record for each identifier\<close>

lemma inventory_row_udid:
  "inventory_row d = Some r \<Longrightarrow> bind_string (d_udid d) = Some (di_udid r)"
  by (auto simp: inventory_row_def split: option.splits)

lemma map_update_first:
  "(\<And>x. P x \<Longrightarrow> g (f x) = g x) \<Longrightarrow> map g (update_first P f xs) = map g xs"
  by (induction xs) auto

lemma inventory_add_ledger:
  "device_inventory (pending (add_ledger u st de s)) = device_inventory (pending s)"
  by (simp add: add_ledger_def split: option.splits)

lemma udids_upsert_inventory:
  assumes "upsert_inventory d s = (r, s')"
  shows "map di_udid (device_inventory (pending s')) = map di_udid (device_inventory (pending s))
    \<or> (\<exists>u. u \<notin> set (map di_udid (device_inventory (pending s))) \<and>
          map di_udid (device_inventory (pending s')) =
            map di_udid (device_inventory (pending s)) @ [u])"
proof (cases "autoflush s = None \<and> (\<exists>row. inventory_row d = Some row)")
  case False
  with assms have "device_inventory (pending s') = device_inventory (pending s)"
    by (auto simp: upsert_inventory_def split: option.splits)
  then show ?thesis by simp
next
  case True
  then obtain row where row: "inventory_row d = Some row" and f: "autoflush s = None" by blast
  then have u: "bind_string (d_udid d) = Some (di_udid row)" by (simp add: inventory_row_udid)
  show ?thesis
  proof (cases "\<exists>x \<in> set (device_inventory (pending s)). di_udid x = di_udid row")
    case True
    with assms row f u have "device_inventory (pending s') =
        update_first (\<lambda>x. di_udid x = di_udid row) (\<lambda>x. row) (device_inventory (pending s))"
      by (auto simp: upsert_inventory_def)
    moreover have "map di_udid (update_first (\<lambda>x. di_udid x = di_udid row) (\<lambda>x. row)
        (device_inventory (pending s))) = map di_udid (device_inventory (pending s))"
      by (rule map_update_first) simp
    ultimately have "map di_udid (device_inventory (pending s')) =
        map di_udid (device_inventory (pending s))"
      by simp
    then show ?thesis by simp
  next
    case False
    with assms row f u have "device_inventory (pending s') =
        device_inventory (pending s) @ [row]"
      by (auto simp: upsert_inventory_def)
    with False show ?thesis by auto
  qed
qed

lemma distinct_upsert_inventory:
  assumes "upsert_inventory d s = (r, s')"
    and "distinct (map di_udid (device_inventory (pending s)))"
  shows "distinct (map di_udid (device_inventory (pending s')))"
  using udids_upsert_inventory [OF assms(1)] assms(2) by auto

lemma distinct_sync_device:
  assumes "sync_device str_of dumps teams A added device s = (r, s')"
    and "distinct (map di_udid (device_inventory (pending s)))"
  shows "distinct (map di_udid (device_inventory (pending s')))"
  using assms
  by (auto simp: sync_device_def inventory_add_ledger
      split: sum.splits if_splits prod.splits option.splits
      dest: distinct_upsert_inventory)

lemma inventory_upsert_avbox:
  "upsert_avbox item s = (r, s') \<Longrightarrow>
   device_inventory (pending s') = device_inventory (pending s)"
  by (auto simp: upsert_avbox_def split: option.splits if_splits)

lemma distinct_remove_device:
  assumes "remove_device dumps u s = (r, s')"
    and "distinct (map di_udid (device_inventory (pending s)))"
  shows "distinct (map di_udid (device_inventory (pending s')))"
  using assms
  by (auto simp: remove_device_def Let_def inventory_add_ledger distinct_map_filter
      split: option.splits if_splits list.splits)

lemma distinct_remove_loop:
  assumes "for_each (remove_device dumps) xs s = (r, s')"
    and "distinct (map di_udid (device_inventory (pending s)))"
  shows "distinct (map di_udid (device_inventory (pending s')))"
  using assms(1,2)
  by (rule for_each_invariant) (rule distinct_remove_device)

lemma distinct_sync_loop:
  assumes "for_each (sync_device str_of dumps teams A added) xs s = (r, s')"
    and "distinct (map di_udid (device_inventory (pending s)))"
  shows "distinct (map di_udid (device_inventory (pending s')))"
  using assms(1,2)
  by (rule for_each_invariant) (rule distinct_sync_device)

lemma distinct_avbox_loop:
  assumes "for_each upsert_avbox xs s = (r, s')"
    and "distinct (map di_udid (device_inventory (pending s)))"
  shows "distinct (map di_udid (device_inventory (pending s')))"
  using assms(1,2)
  by (rule for_each_invariant) (simp add: inventory_upsert_avbox)

lemma commit_pending: "commit s = (r, s') \<Longrightarrow> pending s' = pending s"
  by (auto simp: commit_def split: option.splits)

lemma commit_done: "commit s = (None, s') \<Longrightarrow> persisted s' = pending s'"
  by (auto simp: commit_def split: option.splits)

lemma changes_distinct:
  assumes "and_then (for_each (remove_device dumps) xs)
     (and_then (for_each (sync_device str_of dumps teams A added) ys)
        (and_then (for_each upsert_avbox zs) commit)) s = (r, s')"
    and "distinct (map di_udid (device_inventory (pending s)))"
  shows "distinct (map di_udid (device_inventory (pending s')))"
  using assms(1)
proof (cases rule: and_then_cases)
  case (raised e)
  from raised(1) assms(2) show ?thesis by (rule distinct_remove_loop)
next
  case a: (went_on s1)
  from a(1) assms(2) have d1: "distinct (map di_udid (device_inventory (pending s1)))"
    by (rule distinct_remove_loop)
  from a(2) show ?thesis
  proof (cases rule: and_then_cases)
    case (raised e)
    from raised(1) d1 show ?thesis by (rule distinct_sync_loop)
  next
    case b: (went_on s2)
    from b(1) d1 have d2: "distinct (map di_udid (device_inventory (pending s2)))"
      by (rule distinct_sync_loop)
    from b(2) show ?thesis
    proof (cases rule: and_then_cases)
      case (raised e)
      from raised(1) d2 show ?thesis by (rule distinct_avbox_loop)
    next
      case c: (went_on s3)
      from c(1) d2 have "distinct (map di_udid (device_inventory (pending s3)))"
        by (rule distinct_avbox_loop)
      with commit_pending [OF c(2)] show ?thesis by simp
    qed
  qed
qed

lemma changes_done:
  assumes "and_then f1 (and_then f2 (and_then f3 commit)) s = (None, s')"
  shows "persisted s' = pending s'"
proof -
  from assms obtain s1 where "and_then f2 (and_then f3 commit) s1 = (None, s')"
    by (cases rule: and_then_cases) auto
  then obtain s2 where "and_then f3 commit s2 = (None, s')"
    by (cases rule: and_then_cases) auto
  then obtain s3 where "commit s3 = (None, s')"
    by (cases rule: and_then_cases) auto
  then show ?thesis by (rule commit_done)
qed

lemma main_try_distinct:
  assumes "main_try str_of dumps devices_list_raw devices_team_list s = (r, s')"
    and "distinct (map di_udid (device_inventory (pending s)))"
  shows "distinct (map di_udid (device_inventory (pending s')))"
  using assms(1)
proof (cases rule: main_try_cases)
  case untouched
  with assms(2) show ?thesis by simp
next
  case (applied devices_json devices AVBoxs_data api_ids)
  from applied(8) assms(2) show ?thesis by (rule changes_distinct)
qed

lemma main_try_done:
  assumes "main_try str_of dumps devices_list_raw devices_team_list s = (None, s')"
    and "persisted s = pending s"
  shows "persisted s' = pending s'"
  using assms(1)
proof (cases rule: main_try_cases)
  case untouched
  with assms(2) show ?thesis by simp
next
  case (applied devices_json devices AVBoxs_data api_ids)
  from applied(8) show ?thesis by (rule changes_done)
qed

text \<open>
  Claim C9. If every identifier keys at most one inventory record before a run, then it
  does so after the run, whatever the snapshot: a device whose identifier is already in
  the table, or was written earlier in the same run, overwrites that record.
\<close>

theorem udid_unique_after_run:
  assumes "distinct (map di_udid (device_inventory db))"
  shows "distinct (map di_udid (device_inventory
    (main str_of dumps db devices_list_raw devices_team_list)))"
proof -
  obtain r s' where m: "main_try str_of dumps devices_list_raw devices_team_list (Session db)
      = (r, s')"
    by (cases "main_try str_of dumps devices_list_raw devices_team_list (Session db)")
  show ?thesis
  proof (cases r)
    case (Some e)
    with m have "main_try str_of dumps devices_list_raw devices_team_list (Session db)
        = (Some e, s')"
      by simp
    then have "persisted s' = persisted (Session db)"
      by (rule main_try_failed_persisted)
    with m Some assms show ?thesis
      by (simp add: main_def rollback_def close_def Session_def)
  next
    case None
    from m None have "main_try str_of dumps devices_list_raw devices_team_list
        (Session db) = (None, s')"
      by simp
    moreover have "persisted (Session db) = pending (Session db)" by (simp add: Session_def)
    ultimately have "persisted s' = pending s'"
      by (rule main_try_done)
    moreover have "distinct (map di_udid (device_inventory (pending (Session db))))"
      using assms by (simp add: Session_def)
    with m have "distinct (map di_udid (device_inventory (pending s')))"
      by (rule main_try_distinct)
    ultimately show ?thesis using m None by (simp add: main_def close_def)
  qed
qed

lemma example_twin_run:
  "main example_str_of example_dumps example_db example_twin_snapshot JNull =
    \<lparr>device_inventory = device_inventory example_db @
        [\<lparr>di_device_type = Some ''android'', di_model = Some ''Pixel 8 Pro'',
          di_device_skus = None, di_udid = Some ''SER1'', di_host_name = Some ''host-2'',
          di_os_version = None, di_location = Some '', '',
          di_device_notes = None, di_teams = Some [], di_is_avbox = Some False\<rparr>],
      avbox_mapping = [],
      device_ledger = [\<lparr>dl_udid = Some ''SER1'', dl_status = Some ''added'',
          dl_details = Some ''{...}''\<rparr>,
        \<lparr>dl_udid = Some ''SER1'', dl_status = Some ''added'',
          dl_details = Some ''{...}''\<rparr>]\<rparr>"
  by code_simp

theorem udid_unique_after_run_witness:
  "distinct (map di_udid (device_inventory example_db)) \<and>
   get_unique_device_id (JObj example_plain) = get_unique_device_id (JObj example_plain_twin) \<and>
   map di_udid (device_inventory
     (main example_str_of example_dumps example_db example_twin_snapshot JNull)) =
     [Some ''SER0'', Some ''SER1''] \<and>
   distinct (map di_udid (device_inventory
     (main example_str_of example_dumps example_db example_twin_snapshot JNull)))"
proof -
  have d: "distinct (map di_udid (device_inventory example_db))"
    by (simp add: example_db_def)
  have u: "get_unique_device_id (JObj example_plain) =
      get_unique_device_id (JObj example_plain_twin)"
    by code_simp
  have k: "map di_udid (device_inventory
     (main example_str_of example_dumps example_db example_twin_snapshot JNull)) =
     [Some ''SER0'', Some ''SER1'']"
    unfolding example_twin_run by (simp add: example_db_def)
  from d u k udid_unique_after_run [OF d] show ?thesis by (intro conjI)
qed

section \<open>Reconciler: the inventory upsert of one device\<close>

lemma in_inventory_cases:
  "in_inventory (JObj d) =
     (if \<not> truthy (dget d ''avbox_info'') then Inr True
      else (case dget d ''avbox_info'' of
              JObj info \<Rightarrow> Inr (dget info ''usage'' = JStr ''device_under_test'')
            | JNull \<Rightarrow> Inl AttributeError
            | JStr x \<Rightarrow> Inl AttributeError
            | JArr x \<Rightarrow> Inl AttributeError))"
  by (simp add: in_inventory_def dict_get_def dget_def split: json.splits)

lemma in_inventory_iff:
  assumes "in_inventory (JObj d) = Inr w"
  shows "w \<longleftrightarrow> \<not> truthy (dget d ''avbox_info'') \<or>
    (\<exists>info. dget d ''avbox_info'' = JObj info \<and> dget info ''usage'' = JStr ''device_under_test'')"
proof (cases "truthy (dget d ''avbox_info'')")
  case False
  with assms show ?thesis by (simp add: in_inventory_cases)
next
  case True
  with assms show ?thesis
    by (cases "dget d ''avbox_info''") (auto simp: in_inventory_cases)
qed

lemma upsert_inventory_bound:
  assumes "upsert_inventory details s = (None, s')" and "inventory_row details = Some row"
  shows "s' = s\<lparr>pending := (pending s)\<lparr>device_inventory :=
      (if \<exists>x\<in>set (device_inventory (pending s)). di_udid x = di_udid row
       then update_first (\<lambda>x. di_udid x = di_udid row) (\<lambda>x. row)
              (device_inventory (pending s))
       else device_inventory (pending s) @ [row])\<rparr>\<rparr>"
proof -
  from assms(2) have "bind_string (d_udid details) = Some (di_udid row)"
    by (rule inventory_row_udid)
  with assms show ?thesis
    by (auto simp: upsert_inventory_def split: option.splits if_splits)
qed

lemma upsert_inventory_unbound:
  assumes "upsert_inventory details s = (None, s')" and "inventory_row details = None"
  shows "s' = s\<lparr>unflushable := True\<rparr>"
  using assms by (auto simp: upsert_inventory_def split: option.splits)

lemma unflushable_add_ledger:
  "unflushable s \<Longrightarrow> unflushable (add_ledger u st de s)"
  by (simp add: add_ledger_def split: option.splits)

lemma sync_device_wanted:
  assumes "sync_device str_of dumps teams AVBoxs added device s = (None, s')"
    and "in_inventory device = Inr True"
  obtains details s1 where "device_details_for_db str_of device teams = Inr details"
    and "upsert_inventory details s = (None, s1)"
    and "device_inventory (pending s') = device_inventory (pending s1)"
    and "unflushable s1 \<longrightarrow> unflushable s'"
proof -
  from assms obtain details where d: "device_details_for_db str_of device teams = Inr details"
    by (cases "device_details_for_db str_of device teams") (auto simp: sync_device_def)
  from assms d obtain s1 where "upsert_inventory details s = (None, s1)"
    and "device_inventory (pending s') = device_inventory (pending s1)"
    and "unflushable s1 \<longrightarrow> unflushable s'"
    by (auto simp: sync_device_def inventory_add_ledger unflushable_add_ledger
        split: prod.splits option.splits if_splits sum.splits)
  with d that show ?thesis by blast
qed

text \<open>
  Claim C5, as amended. A step of the inventory loop that does not raise writes the device
  to the inventory if and only if its auxiliary-usage descriptor is absent or empty, or
  its usage is equal to \<open>device_under_test\<close>; a device that is left out changes
  nothing. For a device that is written and whose normalised values are all strings or
  \<open>None\<close>, the first record with the identifier of the device is replaced by the
  normalised record of the device, every field of it, and when no record has the
  identifier the normalised record is added at the end. For a device that is written and
  has a list or a dict among its normalised values, which no column takes, the inventory
  table is left as it is and the session is marked so that its next flush raises.
\<close>

theorem inventory_upsert_step:
  assumes "sync_device str_of dumps teams AVBoxs added (JObj d) s = (None, s')"
  shows "in_inventory (JObj d) =
      Inr (\<not> truthy (dget d ''avbox_info'') \<or>
           (\<exists>info. dget d ''avbox_info'' = JObj info \<and>
                   dget info ''usage'' = JStr ''device_under_test'')) \<and>
    (in_inventory (JObj d) = Inr False \<longrightarrow> s' = s) \<and>
    (in_inventory (JObj d) = Inr True \<longrightarrow>
       (\<exists>details. device_details_for_db str_of (JObj d) teams = Inr details \<and>
          (\<forall>row. inventory_row details = Some row \<longrightarrow>
             device_inventory (pending s') =
               (if \<exists>x\<in>set (device_inventory (pending s)). di_udid x = di_udid row
                then update_first (\<lambda>x. di_udid x = di_udid row) (\<lambda>x. row)
                       (device_inventory (pending s))
                else device_inventory (pending s) @ [row])) \<and>
          (inventory_row details = None \<longrightarrow>
             device_inventory (pending s') = device_inventory (pending s) \<and>
             unflushable s')))"
proof -
  from assms obtain w where w: "in_inventory (JObj d) = Inr w"
    by (cases "in_inventory (JObj d)") (auto simp: sync_device_def)
  have 1: "in_inventory (JObj d) =
      Inr (\<not> truthy (dget d ''avbox_info'') \<or>
           (\<exists>info. dget d ''avbox_info'' = JObj info \<and>
                   dget info ''usage'' = JStr ''device_under_test''))"
    using w in_inventory_iff [OF w] by simp
  have 2: "in_inventory (JObj d) = Inr False \<longrightarrow> s' = s"
    using assms by (auto simp: sync_device_def)
  have 3: "\<exists>details. device_details_for_db str_of (JObj d) teams = Inr details \<and>
      (\<forall>row. inventory_row details = Some row \<longrightarrow>
         device_inventory (pending s') =
           (if \<exists>x\<in>set (device_inventory (pending s)). di_udid x = di_udid row
            then update_first (\<lambda>x. di_udid x = di_udid row) (\<lambda>x. row)
                   (device_inventory (pending s))
            else device_inventory (pending s) @ [row])) \<and>
      (inventory_row details = None \<longrightarrow>
         device_inventory (pending s') = device_inventory (pending s) \<and> unflushable s')"
    if t: "in_inventory (JObj d) = Inr True"
  proof -
    from assms t obtain details s1
      where d: "device_details_for_db str_of (JObj d) teams = Inr details"
        and u: "upsert_inventory details s = (None, s1)"
        and i: "device_inventory (pending s') = device_inventory (pending s1)"
        and m: "unflushable s1 \<longrightarrow> unflushable s'"
      by (rule sync_device_wanted)
    have a: "device_inventory (pending s') =
        (if \<exists>x\<in>set (device_inventory (pending s)). di_udid x = di_udid row
         then update_first (\<lambda>x. di_udid x = di_udid row) (\<lambda>x. row)
                (device_inventory (pending s))
         else device_inventory (pending s) @ [row])"
      if "inventory_row details = Some row" for row
      using upsert_inventory_bound [OF u that] i by simp
    have b: "device_inventory (pending s') = device_inventory (pending s) \<and> unflushable s'"
      if "inventory_row details = None"
      using upsert_inventory_unbound [OF u that] i m by simp
    show ?thesis
    proof (intro exI [of _ details] conjI allI impI)
      show "device_details_for_db str_of (JObj d) teams = Inr details" by (rule d)
    next
      fix row
      assume "inventory_row details = Some row"
      then show "device_inventory (pending s') =
        (if \<exists>x\<in>set (device_inventory (pending s)). di_udid x = di_udid row
         then update_first (\<lambda>x. di_udid x = di_udid row) (\<lambda>x. row)
                (device_inventory (pending s))
         else device_inventory (pending s) @ [row])"
        by (rule a)
    next
      assume "inventory_row details = None"
      then show "device_inventory (pending s') = device_inventory (pending s)"
        by (simp add: b)
    next
      assume "inventory_row details = None"
      then show "unflushable s'" by (simp add: b)
    qed
  qed
  show ?thesis
  proof (intro conjI)
    show "in_inventory (JObj d) =
      Inr (\<not> truthy (dget d ''avbox_info'') \<or>
           (\<exists>info. dget d ''avbox_info'' = JObj info \<and>
                   dget info ''usage'' = JStr ''device_under_test''))"
      by (rule 1)
  next
    show "in_inventory (JObj d) = Inr False \<longrightarrow> s' = s" by (rule 2)
  next
    show "in_inventory (JObj d) = Inr True \<longrightarrow>
       (\<exists>details. device_details_for_db str_of (JObj d) teams = Inr details \<and>
          (\<forall>row. inventory_row details = Some row \<longrightarrow>
             device_inventory (pending s') =
               (if \<exists>x\<in>set (device_inventory (pending s)). di_udid x = di_udid row
                then update_first (\<lambda>x. di_udid x = di_udid row) (\<lambda>x. row)
                       (device_inventory (pending s))
                else device_inventory (pending s) @ [row])) \<and>
          (inventory_row details = None \<longrightarrow>
             device_inventory (pending s') = device_inventory (pending s) \<and>
             unflushable s'))"
      using 3 by (rule impI)
  qed
qed

lemma example_update_step:
  "sync_device example_str_of example_dumps JNull [] [] (JObj example_update)
     (Session example_db) =
   (None, \<lparr>persisted = example_db,
      pending = \<lparr>device_inventory =
          [\<lparr>di_device_type = Some ''android'', di_model = Some ''Pixel 6a'',
            di_device_skus = None, di_udid = Some ''SER0'', di_host_name = Some ''host-0'',
            di_os_version = Some ''15'', di_location = Some ''Zurich, CH'',
            di_device_notes = None, di_teams = Some [], di_is_avbox = Some False\<rparr>],
        avbox_mapping = [], device_ledger = []\<rparr>,
      unflushable = False\<rparr>)"
  by code_simp

lemma example_camera_step:
  "sync_device example_str_of example_dumps JNull [] [] (JObj example_camera)
     (Session example_db) = (None, Session example_db)"
  by code_simp

lemma example_list_model_step:
  "sync_device example_str_of example_dumps JNull [] [] (JObj example_list_model)
     (Session example_db) = (None, (Session example_db)\<lparr>unflushable := True\<rparr>)"
  by code_simp

theorem inventory_upsert_step_witness:
  "in_inventory (JObj example_update) = Inr True \<and>
   (\<exists>details row. device_details_for_db example_str_of (JObj example_update) JNull = Inr details \<and>
      inventory_row details = Some row \<and> di_udid row = Some ''SER0'' \<and>
      device_inventory (pending (snd (sync_device example_str_of example_dumps JNull [] []
        (JObj example_update) (Session example_db)))) = [row]) \<and>
   in_inventory (JObj example_camera) = Inr False \<and>
   snd (sync_device example_str_of example_dumps JNull [] [] (JObj example_camera)
     (Session example_db)) = Session example_db \<and>
   in_inventory (JObj example_list_model) = Inr True \<and>
   (\<exists>details. device_details_for_db example_str_of (JObj example_list_model) JNull
      = Inr details \<and> inventory_row details = None) \<and>
   device_inventory (pending (snd (sync_device example_str_of example_dumps JNull [] []
     (JObj example_list_model) (Session example_db)))) = device_inventory example_db \<and>
   unflushable (snd (sync_device example_str_of example_dumps JNull [] []
     (JObj example_list_model) (Session example_db)))"
proof -
  have w: "in_inventory (JObj example_update) = Inr True" by code_simp
  have c: "in_inventory (JObj example_camera) = Inr False" by code_simp
  have lw: "in_inventory (JObj example_list_model) = Inr True" by code_simp
  have i: "device_inventory (pending (Session example_db)) = device_inventory example_db"
    by (simp add: Session_def)
  let ?s' = "snd (sync_device example_str_of example_dumps JNull [] []
        (JObj example_update) (Session example_db))"
  have h: "sync_device example_str_of example_dumps JNull [] [] (JObj example_update)
     (Session example_db) = (None, ?s')"
    by (simp add: example_update_step)
  obtain ud where ud: "device_details_for_db example_str_of (JObj example_update) JNull = Inr ud"
    and ur: "\<forall>row. inventory_row ud = Some row \<longrightarrow>
      device_inventory (pending ?s') =
        (if \<exists>x\<in>set (device_inventory (pending (Session example_db))). di_udid x = di_udid row
         then update_first (\<lambda>x. di_udid x = di_udid row) (\<lambda>x. row)
                (device_inventory (pending (Session example_db)))
         else device_inventory (pending (Session example_db)) @ [row])"
    and un: "inventory_row ud = None \<longrightarrow>
      device_inventory (pending ?s') = device_inventory (pending (Session example_db)) \<and>
      unflushable ?s'"
    using inventory_upsert_step [OF h, THEN conjunct2, THEN conjunct2, THEN mp, OF w]
    by (elim exE conjE) (erule (2) that)
  have f: "\<not> unflushable ?s'"
    by (simp add: example_update_step)
  with un obtain row where r: "inventory_row ud = Some row"
    by (cases "inventory_row ud") auto
  have l: "device_inventory (pending ?s') =
      [\<lparr>di_device_type = Some ''android'', di_model = Some ''Pixel 6a'',
        di_device_skus = None, di_udid = Some ''SER0'', di_host_name = Some ''host-0'',
        di_os_version = Some ''15'', di_location = Some ''Zurich, CH'',
        di_device_notes = None, di_teams = Some [], di_is_avbox = Some False\<rparr>]"
    by (simp add: example_update_step)
  from ur r have "device_inventory (pending ?s') =
      (if \<exists>x\<in>set (device_inventory example_db). di_udid x = di_udid row
       then update_first (\<lambda>x. di_udid x = di_udid row) (\<lambda>x. row) (device_inventory example_db)
       else device_inventory example_db @ [row])"
    unfolding i by (elim allE [of _ row] impE) simp_all
  with l have "di_udid row = Some ''SER0'' \<and> device_inventory (pending ?s') = [row]"
    by (auto simp: example_db_def split: if_splits)
  with ud r have 1: "\<exists>details row. device_details_for_db example_str_of (JObj example_update)
        JNull = Inr details \<and>
      inventory_row details = Some row \<and> di_udid row = Some ''SER0'' \<and>
      device_inventory (pending ?s') = [row]"
    by blast
  have k: "sync_device example_str_of example_dumps JNull [] [] (JObj example_camera)
     (Session example_db) = (None, snd (sync_device example_str_of example_dumps JNull [] []
       (JObj example_camera) (Session example_db)))"
    by (simp add: example_camera_step)
  from inventory_upsert_step [OF k, THEN conjunct2, THEN conjunct1, THEN mp, OF c]
  have 2: "snd (sync_device example_str_of example_dumps JNull [] [] (JObj example_camera)
     (Session example_db)) = Session example_db" .
  let ?t' = "snd (sync_device example_str_of example_dumps JNull [] []
     (JObj example_list_model) (Session example_db))"
  have g: "sync_device example_str_of example_dumps JNull [] [] (JObj example_list_model)
     (Session example_db) = (None, ?t')"
    by (simp add: example_list_model_step)
  have n: "(case device_details_for_db example_str_of (JObj example_list_model) JNull of
      Inr details \<Rightarrow> inventory_row details = None | Inl e \<Rightarrow> False)"
    by code_simp
  obtain ld where ld: "device_details_for_db example_str_of (JObj example_list_model) JNull
      = Inr ld"
    and ln: "inventory_row ld = None \<longrightarrow>
      device_inventory (pending ?t') = device_inventory (pending (Session example_db)) \<and>
      unflushable ?t'"
    using inventory_upsert_step [OF g, THEN conjunct2, THEN conjunct2, THEN mp, OF lw]
    by (elim exE conjE) (erule (1) that)
  from n ld have lr: "inventory_row ld = None" by simp
  with ld have 3: "\<exists>details. device_details_for_db example_str_of (JObj example_list_model)
      JNull = Inr details \<and> inventory_row details = None"
    by blast
  from ln lr i have 4: "device_inventory (pending ?t') = device_inventory example_db"
    and 5: "unflushable ?t'"
    by simp_all
  from w 1 c 2 lw 3 4 5 show ?thesis by (intro conjI)
qed

text \<open>
  Claim C5 as stated fails for a device whose auxiliary-usage descriptor is present and
  empty: the descriptor is not absent and has no usage, and the device is written to the
  inventory.
\<close>

theorem empty_descriptor_upserted_counterexample:
  "fmlookup example_empty_avbox ''avbox_info'' = Some (JObj fmempty) \<and>
   in_inventory (JObj example_empty_avbox) = Inr True \<and>
   map di_udid (device_inventory (pending (snd
     (sync_device example_str_of example_dumps JNull [] [] (JObj example_empty_avbox)
        (Session example_db))))) = [Some ''SER0'', Some ''SER3'']"
  by code_simp

section \<open>Upserts into a table: a second pass changes nothing\<close>


lemma update_first_none:
  "\<forall>x \<in> set xs. \<not> P x \<Longrightarrow> update_first P f xs = xs"
  by (induction xs) auto

















section \<open>The inventory loop as upserts\<close>




lemma unflushable_add_ledger_iff:
  "\<not> unflushable (add_ledger u st de s) \<Longrightarrow> \<not> unflushable s"
  by (auto simp: add_ledger_def split: option.splits)









section \<open>The box-mapping loop as upserts\<close>







section \<open>The bundles the box grouper builds\<close>

















section \<open>A run after a run\<close>









end
